theory Spec2Isabelle
  imports Main "HOL-Library.Sublist"
begin

section \<open>Exceptions and the escalation sequence (experiment\_exceptions.py)\<close>

text \<open>
  The exception classes of \<^verbatim>\<open>experiment_exceptions.py\<close>, the built-in exceptions that
  the modelled code can raise by itself, and \<open>OtherException\<close> for any other subclass of
  \<^verbatim>\<open>Exception\<close> (named by its class name). A raised instance is identified with its class.
\<close>

datatype exn =
    ExperimentAbort | ExperimentReset
  | TrialAbort | TrialReset
  | StageAbort | StageReset
  | Ignore
  | IndexError | KeyError | TypeError | ValueError | AttributeError | UnboundLocalError
  | OtherException string

text \<open>
  An entry of the compact \<^verbatim>\<open>error_sequence\<close> argument: an exception class, or a pair
  \<^verbatim>\<open>(cls, n)\<close>.
\<close>

datatype seq_spec = Cls exn | Rep exn int

text \<open>
  An element of the flattened sequence: an exception class, or the integer \<^verbatim>\<open>0\<close> that
  \<^verbatim>\<open>_create_error_sequence\<close> appends after a class that repeats forever.
\<close>

datatype seq_entry = Exc exn | Zero

text \<open>
  \<^verbatim>\<open>_create_error_sequence\<close>. A pair with count 0 becomes the class followed by the marker
  0; any other pair \<^verbatim>\<open>(cls, n)\<close> becomes \<^verbatim>\<open>[cls] * n\<close>, which is empty for negative n.
\<close>

fun create_error_sequence :: "seq_spec list \<Rightarrow> seq_entry list" where
  "create_error_sequence [] = []"
| "create_error_sequence (Rep c n # es) =
     (if n = 0 then [Exc c, Zero] else replicate (nat n) (Exc c)) @ create_error_sequence es"
| "create_error_sequence (Cls c # es) = Exc c # create_error_sequence es"

text \<open>
  The classes of the first \<^verbatim>\<open>except\<close> clause of \<^verbatim>\<open>handle_exceptions\<close>, which are re-raised
  without looking at the error sequence.
\<close>

definition bypass :: "exn \<Rightarrow> bool" where
  "bypass e = (e = TrialAbort \<or> e = TrialReset \<or> e = StageAbort \<or> e = StageReset)"

text \<open>
  \<^verbatim>\<open>raise x\<close> for an element of the flattened sequence: a class is instantiated and
  raised; raising the integer 0 is a \<^verbatim>\<open>TypeError\<close>.
\<close>

fun raise_entry :: "seq_entry \<Rightarrow> exn" where
  "raise_entry (Exc c) = c"
| "raise_entry Zero = TypeError"

text \<open>
  The decorator \<^verbatim>\<open>handle_exceptions\<close>, applied to the outcome of the wrapped call
  (\<open>Inr\<close> a returned value, \<open>Inl\<close> a raised exception) and the \<^verbatim>\<open>error_sequence\<close> of
  \<^verbatim>\<open>self\<close> as the wrapped call left it. The result is the sequence afterwards and the
  outcome of the decorated call.
\<close>

definition handle_exceptions ::
  "seq_entry list \<Rightarrow> exn + 'a \<Rightarrow> seq_entry list \<times> (exn + 'a)" where
  "handle_exceptions error_sequence out =
     (case out of
        Inr v \<Rightarrow> (error_sequence, Inr v)
      | Inl err \<Rightarrow>
          if bypass err then (error_sequence, Inl err)
          else if error_sequence = [] then (error_sequence, Inl err)
          else if length error_sequence > 1 \<and> error_sequence ! 1 = Zero
            then (error_sequence, Inl (raise_entry (error_sequence ! 0)))
          else (tl error_sequence, Inl (raise_entry (hd error_sequence))))"

text \<open>
  Consecutive calls of a decorated operation of one entity, the i-th of which fails inside
  with the i-th exception of the list: the sequence left behind and the exceptions that
  the decorated calls raised, in order.
\<close>

fun failures :: "seq_entry list \<Rightarrow> exn list \<Rightarrow> seq_entry list \<times> exn list" where
  "failures es [] = (es, [])"
| "failures es (err # errs) =
     (case handle_exceptions es (Inl err :: exn + unit) of
        (es', Inl e) \<Rightarrow> (case failures es' errs of (es'', raised) \<Rightarrow> (es'', e # raised))
      | (es', Inr _) \<Rightarrow> failures es' errs)"

text \<open>No pair of the compact sequence has the count 0.\<close>

fun no_repeat_forever :: "seq_spec list \<Rightarrow> bool" where
  "no_repeat_forever [] = True"
| "no_repeat_forever (Rep c n # es) = (n \<noteq> 0 \<and> no_repeat_forever es)"
| "no_repeat_forever (Cls c # es) = no_repeat_forever es"

text \<open>An unexpected failure: an exception that the first \<^verbatim>\<open>except\<close> clause lets through.\<close>

definition unexpected :: "exn list \<Rightarrow> bool" where
  "unexpected errs = list_all (\<lambda>e. \<not> bypass e) errs"

section \<open>Stages, results and trials (experiment.py)\<close>

text \<open>A Python dictionary with string keys, as a map; \<^verbatim>\<open>d.update(e)\<close> is \<open>d ++ e\<close>.\<close>

type_synonym 'v dict = "string \<Rightarrow> 'v option"

text \<open>
  A stage object as a trial sees it: whether it is an instance of \<^verbatim>\<open>BlockingStage\<close>, and
  the two error sequences that \<^verbatim>\<open>Stage.__init__\<close> and \<^verbatim>\<open>BlockingStage.__init__\<close> set.
  What \<^verbatim>\<open>start\<close> and \<^verbatim>\<open>is_done\<close> do is code of the subclasses: it enters the model as
  the \<open>response\<close> of the call (below).
\<close>

record stage =
  blocking :: bool
  stage_error_sequence :: "seq_entry list"
  stage_original_error_sequence :: "seq_entry list"

definition reset_error_sequence :: "stage \<Rightarrow> stage" where
  "reset_error_sequence s = s\<lparr>stage_error_sequence := stage_original_error_sequence s\<rparr>"

record 'v TrialResults =
  data :: "'v list"
  metadata :: "'v dict"

definition add_data :: "'v \<Rightarrow> 'v TrialResults \<Rightarrow> 'v TrialResults" where
  "add_data x r = r\<lparr>data := data r @ [x]\<rparr>"

text \<open>
  What one call of \<^verbatim>\<open>current_stage.start(**self.state)\<close> or
  \<^verbatim>\<open>current_stage.is_done(**self.state)\<close> does: it returns a pair
  \<^verbatim>\<open>(status, next_state)\<close> or raises.
\<close>

datatype 'v response = Returns int "'v dict" | Raises exn

text \<open>
  The attributes of a \<^verbatim>\<open>Trial\<close>. The attribute \<^verbatim>\<open>done\<close> is the field \<open>trial_done\<close>;
  \<^verbatim>\<open>stage_args\<close> is \<open>None\<close> until \<^verbatim>\<open>setup\<close> or \<^verbatim>\<open>new_trial\<close> sets the attribute.
\<close>

record 'v trial =
  error_sequence :: "seq_entry list"
  original_error_sequence :: "seq_entry list"
  state :: "'v dict"
  initial_state :: "'v dict"
  state_checkpoint :: "'v dict"
  stage_index :: nat
  stages :: "stage list"
  running :: bool
  initial_results :: "'v TrialResults"
  results :: "'v TrialResults"
  trial_done :: bool
  multiple_results :: bool
  errors :: int
  fails :: int
  stage_args :: "'v dict list option"

text \<open>\<^verbatim>\<open>Trial.__init__\<close>.\<close>

definition Trial_init ::
  "stage list \<Rightarrow> 'v dict \<Rightarrow> seq_spec list \<Rightarrow> 'v TrialResults \<Rightarrow> 'v trial" where
  "Trial_init stgs init error_seq res =
     \<lparr> error_sequence = create_error_sequence error_seq,
       original_error_sequence = create_error_sequence error_seq,
       state = init,
       initial_state = init,
       state_checkpoint = init,
       stage_index = 0,
       stages = map (\<lambda>s. s\<lparr>stage_error_sequence := stage_error_sequence s\<rparr>) stgs,
       running = False,
       initial_results = res,
       results = res,
       trial_done = True,
       multiple_results = False,
       errors = 0,
       fails = 0,
       stage_args = None \<rparr>"

definition set_running :: "'v trial \<Rightarrow> 'v trial" where
  "set_running t = t\<lparr>running := True\<rparr>"

definition unset_running :: "'v trial \<Rightarrow> 'v trial" where
  "unset_running t = t\<lparr>running := False\<rparr>"

definition is_running :: "'v trial \<Rightarrow> bool" where
  "is_running t = running t"

definition reset_stage :: "'v trial \<Rightarrow> 'v trial" where
  "reset_stage t = (let t1 = unset_running t in t1\<lparr>state := state_checkpoint t1\<rparr>)"

text \<open>
  \<^verbatim>\<open>Trial.reset\<close>. The read of \<^verbatim>\<open>self.stage_args[0]\<close> raises \<^verbatim>\<open>AttributeError\<close> when the
  attribute was never set and \<^verbatim>\<open>IndexError\<close> when the list is empty; the two assignments
  before it have happened by then.
\<close>

definition reset :: "'v trial \<Rightarrow> 'v trial \<times> (exn + unit)" where
  "reset t =
     (let t1 = t\<lparr>state := initial_state t\<rparr>;
          t2 = t1\<lparr>state_checkpoint := state t1\<rparr>
      in case stage_args t2 of
           None \<Rightarrow> (t2, Inl AttributeError)
         | Some [] \<Rightarrow> (t2, Inl IndexError)
         | Some (a # _) \<Rightarrow>
             (unset_running
                (t2\<lparr>state := state t2 ++ a, trial_done := False, multiple_results := False,
                    stage_index := 0, errors := 0\<rparr>)
                \<lparr>results := initial_results t2\<rparr>,
              Inr ()))"

definition is_done :: "'v trial \<Rightarrow> bool" where
  "is_done t = trial_done t"

text \<open>\<^verbatim>\<open>Trial.setup\<close>.\<close>

definition setup_trial :: "'v dict list \<Rightarrow> 'v trial \<Rightarrow> 'v trial" where
  "setup_trial args t = t\<lparr>stage_args := Some args\<rparr>"

text \<open>
  \<^verbatim>\<open>Trial.new_trial(stage_args = None, **kwargs)\<close>. The keyword overrides go into
  \<^verbatim>\<open>initial_state\<close> before \<^verbatim>\<open>stage_args[0]\<close> is read, which raises \<^verbatim>\<open>IndexError\<close> on an empty
  list.
\<close>

definition new_trial ::
  "'v dict list option \<Rightarrow> 'v dict \<Rightarrow> 'v trial \<Rightarrow> 'v trial \<times> (exn + unit)" where
  "new_trial args kwargs t =
     (let args1 = (case args of None \<Rightarrow> replicate (length (stages t)) Map.empty | Some l \<Rightarrow> l);
          t1 = t\<lparr>error_sequence := original_error_sequence t,
                 initial_state := initial_state t ++ kwargs\<rparr>;
          t2 = t1\<lparr>state := initial_state t1\<rparr>;
          t3 = t2\<lparr>state_checkpoint := state t2, stage_args := Some args1\<rparr>
      in case args1 of
           [] \<Rightarrow> (t3, Inl IndexError)
         | a # _ \<Rightarrow>
             (unset_running
                (t3\<lparr>state := state t3 ++ a, trial_done := False, multiple_results := False,
                    stage_index := 0, errors := 0, results := initial_results t3\<rparr>)
                \<lparr>stages := map reset_error_sequence (stages t3)\<rparr>,
              Inr ()))"

definition set_done :: "'v trial \<Rightarrow> 'v trial" where
  "set_done t = t\<lparr>trial_done := True\<rparr>"

text \<open>
  \<^verbatim>\<open>Trial.next_stage\<close>. The \<^verbatim>\<open>IndexError\<close> of a missing entry of \<^verbatim>\<open>stage_args\<close> is caught
  there; an unset attribute raises \<^verbatim>\<open>AttributeError\<close> after the index has moved.
\<close>

definition next_stage :: "'v trial \<Rightarrow> 'v trial \<times> (exn + unit)" where
  "next_stage t =
     (let t1 = t\<lparr>stage_index := stage_index t + 1\<rparr>
      in case stage_args t1 of
           None \<Rightarrow> (t1, Inl AttributeError)
         | Some args \<Rightarrow>
             ((if stage_index t1 < length args
               then t1\<lparr>state := state t1 ++ (args ! stage_index t1)\<rparr> else t1)
                \<lparr>running := False\<rparr>,
              Inr ()))"

text \<open>
  The four lines that \<^verbatim>\<open>Trial.run\<close> repeats after each stage call that returned
  (lines 252--256, 282--286 and 315--319): a \<^verbatim>\<open>trial_results\<close> entry of \<^verbatim>\<open>next_state\<close> is
  appended to the results, and \<^verbatim>\<open>next_state\<close> is merged into the state.
\<close>

definition absorb :: "'v dict \<Rightarrow> 'v trial \<Rightarrow> 'v trial" where
  "absorb next_state t =
     (let t1 = (case next_state ''trial_results'' of
                  None \<Rightarrow> t
                | Some v \<Rightarrow> t\<lparr>results := add_data v (results t)\<rparr>)
      in t1\<lparr>state := state t1 ++ next_state\<rparr>)"

text \<open>The last statement of \<^verbatim>\<open>Trial.run\<close> (lines 329--333).\<close>

definition finish ::
  "bool \<Rightarrow> 'v trial \<Rightarrow> 'v trial \<times> (exn + int \<times> 'v TrialResults option)" where
  "finish just_finished t =
     (if stage_index t = length (stages t) \<and> just_finished
      then (t\<lparr>trial_done := True\<rparr>, Inr (1, Some (results t)))
      else (t, Inr (0, None)))"

text \<open>
  The body of \<^verbatim>\<open>Trial.run\<close>, given what the one stage call of this invocation does (the
  response \<open>r\<close>; it is not looked at when no stage call is made). \<^verbatim>\<open>self.stages[i]\<close> raises
  \<^verbatim>\<open>IndexError\<close> past the end, and \<^verbatim>\<open>BlockingStage\<close> has no attribute \<^verbatim>\<open>is_done\<close>.
\<close>

definition run_body ::
  "'v response \<Rightarrow> 'v trial \<Rightarrow> 'v trial \<times> (exn + int \<times> 'v TrialResults option)" where
  "run_body r t =
     (if is_done t then (t, Inr (1, None))
      else if \<not> stage_index t < length (stages t) then (t, Inl IndexError)
      else
        let current_stage = stages t ! stage_index t in
        if \<not> running t then
          (let t1 = t\<lparr>state_checkpoint := state t\<rparr> in
           if blocking current_stage then
             (case (case r of
                      Returns status next_state \<Rightarrow> Inr (status, next_state)
                    | Raises e \<Rightarrow>
                        if e = StageAbort then Inr (1, Map.empty)
                        else if e = StageReset \<or> e = Ignore then Inr (0, Map.empty)
                        else Inl e) of
                Inl e \<Rightarrow> (t1, Inl e)
              | Inr (status, next_state) \<Rightarrow>
                  let t2 = absorb next_state t1 in
                  if status \<noteq> 0 then
                    (case next_stage t2 of
                       (t3, Inl e) \<Rightarrow> (t3, Inl e)
                     | (t3, Inr _) \<Rightarrow> finish True t3)
                  else finish False t2)
           else
             (case r of
                Raises e \<Rightarrow>
                  if e = StageAbort then
                    (case next_stage t1 of
                       (t2, Inl e') \<Rightarrow> (t2, Inl e')
                     | (t2, Inr _) \<Rightarrow> (t2, Inr (0, None)))
                  else if e = StageReset \<or> e = Ignore then (t1, Inr (0, None))
                  else (t1, Inl e)
              | Returns status next_state \<Rightarrow>
                  let t2 = absorb next_state t1;
                      t3 = (if status \<noteq> 0 then set_running t2 else t2)
                  in finish False t3))
        else
          (if blocking current_stage then (t, Inl AttributeError)
           else
             (case r of
                Raises e \<Rightarrow>
                  if e = StageAbort then
                    (case next_stage t of
                       (t1, Inl e') \<Rightarrow> (t1, Inl e')
                     | (t1, Inr _) \<Rightarrow> (t1, Inr (0, None)))
                  else if e = StageReset then (reset_stage t, Inr (0, None))
                  else if e = Ignore then (t, Inr (0, None))
                  else (t, Inl e)
              | Returns status next_state \<Rightarrow>
                  let t1 = absorb next_state t in
                  if status \<noteq> 0 then
                    (case next_stage t1 of
                       (t2, Inl e) \<Rightarrow> (t2, Inl e)
                     | (t2, Inr _) \<Rightarrow> finish True (unset_running t2))
                  else finish False t1)))"

text \<open>\<^verbatim>\<open>Trial.run\<close> as decorated with \<^verbatim>\<open>@handle_exceptions\<close>.\<close>

definition run ::
  "'v response \<Rightarrow> 'v trial \<Rightarrow> 'v trial \<times> (exn + int \<times> 'v TrialResults option)" where
  "run r t =
     (case run_body r t of
        (t1, out) \<Rightarrow>
          (case handle_exceptions (error_sequence t1) out of
             (es, out') \<Rightarrow> (t1\<lparr>error_sequence := es\<rparr>, out')))"

text \<open>
  Consecutive calls of \<^verbatim>\<open>run\<close> on one trial, one per response, whatever each call returns
  or raises: the trial afterwards and the outcomes of the calls in order.
\<close>

fun run_all ::
  "'v response list \<Rightarrow> 'v trial \<Rightarrow>
   'v trial \<times> (exn + int \<times> 'v TrialResults option) list" where
  "run_all [] t = (t, [])"
| "run_all (r # rs) t =
     (case run r t of
        (t1, out) \<Rightarrow> (case run_all rs t1 of (t2, outs) \<Rightarrow> (t2, out # outs)))"

text \<open>
  A completion signal, in the words of the specification: a nonzero status returned by
  the \<^verbatim>\<open>start\<close> of a blocking stage or by the \<^verbatim>\<open>is_done\<close> of a non-blocking stage. The
  trial calls \<^verbatim>\<open>start\<close> when it is not running and \<^verbatim>\<open>is_done\<close> when it is.
\<close>

definition completion_signal :: "'v trial \<Rightarrow> 'v response \<Rightarrow> bool" where
  "completion_signal t r =
     (\<not> is_done t \<and> stage_index t < length (stages t) \<and>
      (case r of
         Raises e \<Rightarrow> False
       | Returns status next_state \<Rightarrow>
           status \<noteq> 0 \<and>
           (if blocking (stages t ! stage_index t) then \<not> running t else running t)))"

text \<open>The number of completion signals among the responses of consecutive calls.\<close>

fun completion_signals :: "'v response list \<Rightarrow> 'v trial \<Rightarrow> nat" where
  "completion_signals [] t = 0"
| "completion_signals (r # rs) t =
     (if completion_signal t r then 1 else 0) + completion_signals rs (fst (run r t))"

text \<open>The values under the key \<^verbatim>\<open>trial_results\<close> of the updates that the responses carry.\<close>

definition emitted :: "'v response list \<Rightarrow> 'v list" where
  "emitted rs =
     List.map_filter
       (\<lambda>r. case r of Returns status next_state \<Rightarrow> next_state ''trial_results''
                    | Raises e \<Rightarrow> None) rs"

text \<open>Every stage call returns: no control outcome and no other failure is raised.\<close>

definition all_return :: "'v response list \<Rightarrow> bool" where
  "all_return rs = list_all (\<lambda>r. case r of Returns status next_state \<Rightarrow> True | Raises e \<Rightarrow> False) rs"

section \<open>Example objects\<close>

text \<open>
  A blocking and a polling stage without escalation sequences, and a trial of the two,
  constructed with empty results and an empty initial state, before and after
  \<^verbatim>\<open>new_trial()\<close>.
\<close>

definition example_blocking_stage :: stage where
  "example_blocking_stage =
     \<lparr>blocking = True, stage_error_sequence = [], stage_original_error_sequence = []\<rparr>"

definition example_polling_stage :: stage where
  "example_polling_stage =
     \<lparr>blocking = False, stage_error_sequence = [], stage_original_error_sequence = []\<rparr>"

definition example_trial_init :: "nat trial" where
  "example_trial_init =
     Trial_init [example_blocking_stage, example_polling_stage] Map.empty []
       \<lparr>data = [], metadata = Map.empty\<rparr>"

definition example_trial :: "nat trial" where
  "example_trial = fst (new_trial None Map.empty example_trial_init)"

text \<open>A trial of one polling stage, before and after \<^verbatim>\<open>new_trial()\<close>.\<close>

definition example_polling_trial_init :: "nat trial" where
  "example_polling_trial_init =
     Trial_init [example_polling_stage] Map.empty [] \<lparr>data = [], metadata = Map.empty\<rparr>"

definition example_polling_trial :: "nat trial" where
  "example_polling_trial = fst (new_trial None Map.empty example_polling_trial_init)"

text \<open>A trial of one blocking stage, before and after \<^verbatim>\<open>new_trial()\<close>.\<close>

definition example_blocking_trial_init :: "nat trial" where
  "example_blocking_trial_init =
     Trial_init [example_blocking_stage] Map.empty [] \<lparr>data = [], metadata = Map.empty\<rparr>"

definition example_blocking_trial :: "nat trial" where
  "example_blocking_trial = fst (new_trial None Map.empty example_blocking_trial_init)"

section \<open>Sequences of calls on one trial\<close>

text \<open>
  The calls that a \<^verbatim>\<open>Trial\<close> offers and that can change it (\<^verbatim>\<open>is_done\<close> and \<^verbatim>\<open>is_running\<close>
  only read; \<^verbatim>\<open>start\<close> raises \<^verbatim>\<open>NameError\<close> on its first name, before any assignment).
\<close>

datatype 'v trial_call =
    Call_reset_stage
  | Call_reset
  | Call_setup "'v dict list"
  | Call_new_trial "'v dict list option" "'v dict"
  | Call_set_done
  | Call_next_stage
  | Call_set_running
  | Call_unset_running
  | Call_run "'v response"

text \<open>The trial after a call, whether the call returned or raised.\<close>

fun call :: "'v trial_call \<Rightarrow> 'v trial \<Rightarrow> 'v trial" where
  "call Call_reset_stage t = reset_stage t"
| "call Call_reset t = fst (reset t)"
| "call (Call_setup args) t = setup_trial args t"
| "call (Call_new_trial args kwargs) t = fst (new_trial args kwargs t)"
| "call Call_set_done t = set_done t"
| "call Call_next_stage t = fst (next_stage t)"
| "call Call_set_running t = set_running t"
| "call Call_unset_running t = unset_running t"
| "call (Call_run r) t = fst (run r t)"

fun calls :: "'v trial_call list \<Rightarrow> 'v trial \<Rightarrow> 'v trial" where
  "calls [] t = t"
| "calls (c # cs) t = calls cs (call c t)"

text \<open>The call is a \<^verbatim>\<open>new_trial\<close> whose keyword arguments hold the key.\<close>

fun passes_key :: "string \<Rightarrow> 'v trial_call \<Rightarrow> bool" where
  "passes_key k (Call_new_trial args kwargs) = (kwargs k \<noteq> None)"
| "passes_key k c = False"

text \<open>The list that \<^verbatim>\<open>new_trial\<close> binds to \<^verbatim>\<open>stage_args\<close> (its first two lines).\<close>

definition effective_stage_args :: "'v dict list option \<Rightarrow> 'v trial \<Rightarrow> 'v dict list" where
  "effective_stage_args args t =
     (case args of None \<Rightarrow> replicate (length (stages t)) Map.empty | Some l \<Rightarrow> l)"

section \<open>The experiment loop (experiment.py)\<close>

text \<open>
  A dictionary that \<^verbatim>\<open>Experiment.run\<close> unpacks into the keyword arguments of
  \<^verbatim>\<open>new_trial\<close>: \<^verbatim>\<open>base_trial_config\<close>, an element of \<^verbatim>\<open>per_instance_config\<close> or a
  pending argument set, an element of \<^verbatim>\<open>trial_arg_configs\<close>. The entry under the key
  \<^verbatim>\<open>stage_args\<close>, which binds the parameter of that name, is a field of its own: \<open>None\<close>
  when the dictionary has no such key, otherwise its value, a list of dictionaries or
  \<^verbatim>\<open>None\<close>. The entries under the other keys are a list of pairs; pairs of that list
  under the key \<^verbatim>\<open>stage_args\<close> are not part of the dictionary.
\<close>

record 'v keyword_dict =
  kw_stage_args :: "'v dict list option option"
  kw_entries :: "(string \<times> 'v) list"

definition other_entries :: "'v keyword_dict \<Rightarrow> (string \<times> 'v) list" where
  "other_entries d = filter (\<lambda>(k, v). k \<noteq> ''stage_args'') (kw_entries d)"

text \<open>The keys of the dictionary.\<close>

definition keyword_names :: "'v keyword_dict \<Rightarrow> string list" where
  "keyword_names d =
     (case kw_stage_args d of None \<Rightarrow> [] | Some x \<Rightarrow> [''stage_args''])
     @ map fst (other_entries d)"

definition shares_key :: "'v keyword_dict \<Rightarrow> 'v keyword_dict \<Rightarrow> bool" where
  "shares_key a b = list_ex (\<lambda>k. k \<in> set (keyword_names b)) (keyword_names a)"

text \<open>
  The attributes of an \<^verbatim>\<open>Experiment\<close> that \<^verbatim>\<open>run\<close> uses, and \<open>shipped\<close>: the arguments
  of the calls of the hook \<^verbatim>\<open>ship_results\<close> so far, the result sink.
\<close>

record 'v Experiment =
  trial_instances :: "'v trial list"
  base_trial_config :: "'v keyword_dict"
  per_instance_config :: "'v keyword_dict list"
  trial_arg_configs :: "'v keyword_dict list"
  experiment_error_sequence :: "seq_entry list"
  shipped :: "'v TrialResults list"

definition ship_results :: "'v TrialResults \<Rightarrow> 'v Experiment \<Rightarrow> 'v Experiment" where
  "ship_results res e = e\<lparr>shipped := shipped e @ [res]\<rparr>"

text \<open>
  How \<^verbatim>\<open>new_trial(self, stage_args = None, **kwargs)\<close>, called as a method of the trial,
  binds the merged keywords of three dictionaries without a common key: a key \<^verbatim>\<open>self\<close> is
  a second value for the first parameter, a \<^verbatim>\<open>TypeError\<close>; the entry under \<^verbatim>\<open>stage_args\<close>
  is the parameter of that name; the rest is \<^verbatim>\<open>kwargs\<close>.
\<close>

definition bind_new_trial ::
  "'v keyword_dict \<Rightarrow> 'v keyword_dict \<Rightarrow> 'v keyword_dict \<Rightarrow> exn + 'v dict list option \<times> 'v dict" where
  "bind_new_trial copy instance_config arg =
     (if ''self'' \<in> set (keyword_names copy @ keyword_names instance_config @ keyword_names arg)
      then Inl TypeError
      else
        Inr (case kw_stage_args copy of
               Some x \<Rightarrow> x
             | None \<Rightarrow>
                 (case kw_stage_args instance_config of
                    Some x \<Rightarrow> x
                  | None \<Rightarrow> (case kw_stage_args arg of Some x \<Rightarrow> x | None \<Rightarrow> None)),
             map_of (other_entries copy @ other_entries instance_config @ other_entries arg)))"

text \<open>
  The statement
  \<^verbatim>\<open>trial.new_trial(**copy, **instance_config, **self.trial_arg_configs.pop())\<close>
  of line 506, on the list of pending argument sets and the trial: the two afterwards,
  whether the statement raised, and the argument set passed when \<^verbatim>\<open>new_trial\<close> was called.
  The dictionaries are merged one by one as they are evaluated (CPython 3.9 and later;
  before that all three are evaluated first), and a key that comes a second time is a
  \<^verbatim>\<open>TypeError\<close>: for a key shared by the first two, before \<^verbatim>\<open>pop()\<close> is reached.
  \<^verbatim>\<open>pop()\<close> removes the last element and raises \<^verbatim>\<open>IndexError\<close> on an empty list.
\<close>

definition call_new_trial ::
  "'v keyword_dict \<Rightarrow> 'v keyword_dict \<Rightarrow> 'v keyword_dict list \<Rightarrow> 'v trial \<Rightarrow>
   ('v keyword_dict list \<times> 'v trial) \<times> (exn + unit) \<times> 'v keyword_dict list" where
  "call_new_trial copy instance_config pending trial =
     (if shares_key copy instance_config then ((pending, trial), Inl TypeError, [])
      else if pending = [] then ((pending, trial), Inl IndexError, [])
      else
        let arg = last pending;
            pending1 = butlast pending
        in
          if shares_key copy arg \<or> shares_key instance_config arg
          then ((pending1, trial), Inl TypeError, [])
          else
            (case bind_new_trial copy instance_config arg of
               Inl ex \<Rightarrow> ((pending1, trial), Inl ex, [])
             | Inr (args, kwargs) \<Rightarrow>
                 (case new_trial args kwargs trial of
                    (trial1, out) \<Rightarrow> ((pending1, trial1), out, [arg]))))"

text \<open>
  The \<^verbatim>\<open>try\<close> statement around \<^verbatim>\<open>trial.run()\<close> in the first loop (lines 463--492): the
  trial afterwards with \<^verbatim>\<open>status\<close> and \<^verbatim>\<open>results\<close>, or the exception that leaves it.
  \<^verbatim>\<open>results\<close> is \<open>None\<close> where the code has \<^verbatim>\<open>None\<close> or 0, both false.
\<close>

definition fill_try ::
  "'v response \<Rightarrow> 'v trial \<Rightarrow> 'v trial \<times> (exn + int \<times> 'v TrialResults option)" where
  "fill_try r trial =
     (case run r trial of
        (trial1, Inr (status, res)) \<Rightarrow> (trial1, Inr (status, res))
      | (trial1, Inl ex) \<Rightarrow>
          if ex = TrialReset then
            (case reset trial1 of
               (trial2, Inl ex') \<Rightarrow> (trial2, Inl ex')
             | (trial2, Inr _) \<Rightarrow> (trial2, Inr (0, Some (results trial1))))
          else if ex = TrialAbort then (trial1, Inr (1, Some (results trial1)))
          else if ex = Ignore then (trial1, Inr (0, None))
          else (trial1, Inl ex))"

text \<open>
  The same statement in the second loop (lines 523--540), where \<^verbatim>\<open>TrialAbort\<close> also calls
  \<^verbatim>\<open>trial.set_done()\<close>.
\<close>

definition drain_try ::
  "'v response \<Rightarrow> 'v trial \<Rightarrow> 'v trial \<times> (exn + int \<times> 'v TrialResults option)" where
  "drain_try r trial =
     (case run r trial of
        (trial1, Inr (status, res)) \<Rightarrow> (trial1, Inr (status, res))
      | (trial1, Inl ex) \<Rightarrow>
          if ex = TrialReset then
            (case reset trial1 of
               (trial2, Inl ex') \<Rightarrow> (trial2, Inl ex')
             | (trial2, Inr _) \<Rightarrow> (trial2, Inr (0, Some (results trial1))))
          else if ex = TrialAbort then (set_done trial1, Inr (1, Some (results trial1)))
          else if ex = Ignore then (trial1, Inr (0, None))
          else (trial1, Inl ex))"

text \<open>
  One pass of the first \<^verbatim>\<open>while\<close> loop of \<^verbatim>\<open>Experiment.run\<close> (lines 460--512), given
  what the stage call of this pass does: the experiment and \<^verbatim>\<open>trial_index\<close> afterwards,
  whether the pass raised, and the calls of \<^verbatim>\<open>new_trial\<close> that it made, as pairs of the slot
  index and the argument set passed.
\<close>

definition fill_pass ::
  "'v response \<Rightarrow> nat \<Rightarrow> 'v Experiment \<Rightarrow>
   ('v Experiment \<times> nat) \<times> (exn + unit) \<times> (nat \<times> 'v keyword_dict) list" where
  "fill_pass r trial_index e =
     (if \<not> trial_index < length (trial_instances e) then ((e, trial_index), Inl IndexError, [])
      else
        case fill_try r (trial_instances e ! trial_index) of
          (trial1, Inl ex) \<Rightarrow>
            ((e\<lparr>trial_instances := (trial_instances e)[trial_index := trial1]\<rparr>, trial_index),
             Inl ex, [])
        | (trial1, Inr (status, res)) \<Rightarrow>
            let e1 = e\<lparr>trial_instances := (trial_instances e)[trial_index := trial1]\<rparr>;
                e2 = (case res of None \<Rightarrow> e1 | Some x \<Rightarrow> ship_results x e1);
                next_index = (trial_index + 1) mod length (trial_instances e2)
            in
              if status \<noteq> 0 then
                (let copy = base_trial_config e2 in
                 if \<not> trial_index < length (per_instance_config e2)
                 then ((e2, trial_index), Inl IndexError, [])
                 else
                   let instance_config = per_instance_config e2 ! trial_index in
                   if length (trial_arg_configs e2) > 0 then
                     (case call_new_trial copy instance_config (trial_arg_configs e2) trial1 of
                        ((pending1, trial2), out, passed) \<Rightarrow>
                          ((e2\<lparr>trial_arg_configs := pending1,
                               trial_instances := (trial_instances e2)[trial_index := trial2]\<rparr>,
                            (case out of Inl ex \<Rightarrow> trial_index | Inr u \<Rightarrow> next_index)),
                           out, map (Pair trial_index) passed))
                   else ((e2, next_index), Inr (), []))
              else ((e2, next_index), Inr (), []))"

text \<open>How the first loop is left, or that it is still running.\<close>

datatype loop_end = Exited | Raised exn | Still_running

text \<open>
  The first \<^verbatim>\<open>while\<close> loop of \<^verbatim>\<open>Experiment.run\<close>, from a given \<^verbatim>\<open>trial_index\<close>, with one
  response for each pass. The loop can run for ever; it is still running when the
  responses are used up. The last component lists the calls of \<^verbatim>\<open>new_trial\<close> in order.
  An exception that leaves the loop leaves \<^verbatim>\<open>run\<close> too, through its decorator.
\<close>

fun fill_phase ::
  "'v response list \<Rightarrow> nat \<Rightarrow> 'v Experiment \<Rightarrow>
   ('v Experiment \<times> nat \<times> loop_end) \<times> (nat \<times> 'v keyword_dict) list" where
  "fill_phase [] trial_index e =
     (if length (trial_arg_configs e) > 0 then ((e, trial_index, Still_running), [])
      else ((e, trial_index, Exited), []))"
| "fill_phase (r # rs) trial_index e =
     (if length (trial_arg_configs e) > 0 then
        (case fill_pass r trial_index e of
           ((e1, i1), Inl ex, made) \<Rightarrow> ((e1, i1, Raised ex), made)
         | ((e1, i1), Inr _, made) \<Rightarrow>
             (case fill_phase rs i1 e1 of (end, made') \<Rightarrow> (end, made @ made')))
      else ((e, trial_index, Exited), []))"

text \<open>
  The body of the \<^verbatim>\<open>for\<close> loop of the second \<^verbatim>\<open>while\<close> loop (lines 519--548) for the trial
  at one index: the experiment afterwards, and the new value of the local \<^verbatim>\<open>done\<close> or the
  exception raised.
\<close>

definition drain_slot ::
  "'v response \<Rightarrow> nat \<Rightarrow> bool \<Rightarrow> 'v Experiment \<Rightarrow> 'v Experiment \<times> (exn + bool)" where
  "drain_slot r trial_index all_done e =
     (case drain_try r (trial_instances e ! trial_index) of
        (trial1, Inl ex) \<Rightarrow>
          (e\<lparr>trial_instances := (trial_instances e)[trial_index := trial1]\<rparr>, Inl ex)
      | (trial1, Inr (status, res)) \<Rightarrow>
          let e1 = e\<lparr>trial_instances := (trial_instances e)[trial_index := trial1]\<rparr>;
              e2 = (case res of None \<Rightarrow> e1 | Some x \<Rightarrow> ship_results x e1)
          in (e2, Inr (if status = 0 then False else all_done)))"

text \<open>
  A polling trial that has started its stage and holds one result; two argument sets; an
  experiment of one fresh trial and one of the started trial, each with both argument sets
  pending; and an experiment whose base configuration has the key n, with the first
  argument set and one without that key pending.
\<close>

definition example_started_trial :: "nat trial" where
  "example_started_trial =
     fst (run (Returns 1 [''trial_results'' \<mapsto> 9]) example_polling_trial)"

definition no_keywords :: "nat keyword_dict" where
  "no_keywords = \<lparr>kw_stage_args = None, kw_entries = []\<rparr>"

definition example_arg_first :: "nat keyword_dict" where
  "example_arg_first = \<lparr>kw_stage_args = None, kw_entries = [(''n'', 1)]\<rparr>"

definition example_arg_second :: "nat keyword_dict" where
  "example_arg_second = \<lparr>kw_stage_args = None, kw_entries = [(''n'', 2)]\<rparr>"

definition example_experiment :: "nat Experiment" where
  "example_experiment =
     \<lparr> trial_instances = [example_polling_trial_init],
       base_trial_config = no_keywords,
       per_instance_config = [no_keywords],
       trial_arg_configs = [example_arg_first, example_arg_second],
       experiment_error_sequence = [],
       shipped = [] \<rparr>"

definition example_experiment_started :: "nat Experiment" where
  "example_experiment_started =
     example_experiment\<lparr>trial_instances := [example_started_trial]\<rparr>"

definition example_arg_other :: "nat keyword_dict" where
  "example_arg_other = \<lparr>kw_stage_args = None, kw_entries = [(''m'', 5)]\<rparr>"

definition example_experiment_clash :: "nat Experiment" where
  "example_experiment_clash =
     \<lparr> trial_instances = [example_polling_trial_init],
       base_trial_config = \<lparr>kw_stage_args = None, kw_entries = [(''n'', 0)]\<rparr>,
       per_instance_config = [no_keywords],
       trial_arg_configs = [example_arg_first, example_arg_other],
       experiment_error_sequence = [],
       shipped = [] \<rparr>"

text \<open>A trial of one blocking stage constructed with one result, after \<^verbatim>\<open>new_trial()\<close>.\<close>

definition example_seeded_trial_init :: "nat trial" where
  "example_seeded_trial_init =
     Trial_init [example_blocking_stage] Map.empty [] \<lparr>data = [42], metadata = Map.empty\<rparr>"

definition example_seeded_trial :: "nat trial" where
  "example_seeded_trial = fst (new_trial None Map.empty example_seeded_trial_init)"

section \<open>Resources (resource\_control.py)\<close>

text \<open>
  The values of \<^verbatim>\<open>resource_dict\<close> are \<^verbatim>\<open>multiprocessing.BoundedSemaphore\<close> objects: a
  counter of free units and its initial value. \<^verbatim>\<open>acquire(block, timeout)\<close> takes a unit
  when one is free; with none free it returns \<^verbatim>\<open>False\<close>, at once or when the timeout has
  run out, and a blocking call without timeout waits for a release by another holder,
  which one run on its own never sees: the result \<open>None\<close>. \<^verbatim>\<open>release()\<close> raises
  \<^verbatim>\<open>ValueError\<close> above the initial value.
\<close>

record semaphore =
  sem_value :: nat
  sem_bound :: nat

definition sem_acquire :: "bool \<Rightarrow> nat option \<Rightarrow> semaphore \<Rightarrow> (bool \<times> semaphore) option" where
  "sem_acquire blk tmo s =
     (if sem_value s > 0 then Some (True, s\<lparr>sem_value := sem_value s - 1\<rparr>)
      else if blk \<and> tmo = None then None
      else Some (False, s))"

definition sem_release :: "semaphore \<Rightarrow> exn + semaphore" where
  "sem_release s =
     (if sem_value s < sem_bound s then Inr (s\<lparr>sem_value := sem_value s + 1\<rparr>)
      else Inl ValueError)"

text \<open>The keyword arguments of one entry of a dictionary passed to \<^verbatim>\<open>acquire\<close>.\<close>

record acquire_opts =
  opt_block :: bool
  opt_timeout :: "nat option"

text \<open>An argument of \<^verbatim>\<open>ResourceWarden.acquire\<close>: a name, or a dictionary in its key order.\<close>

datatype resource_spec = Name string | Options "(string \<times> acquire_opts) list"

record warden =
  resource_dict :: "string \<Rightarrow> semaphore option"
  block :: bool
  timeout :: "nat option"

text \<open>A call returns a value, raises, or waits for ever on a semaphore.\<close>

datatype 'a outcome = Returned 'a | Raising exn | Blocked

text \<open>The loop of \<^verbatim>\<open>ResourceWarden.release\<close>, with the list \<^verbatim>\<open>released\<close> so far.\<close>

fun release_loop ::
  "warden \<Rightarrow> string list \<Rightarrow> string list \<Rightarrow> warden \<times> (exn + string list)" where
  "release_loop w [] released = (w, Inr released)"
| "release_loop w (r # rs) released =
     (case resource_dict w r of
        None \<Rightarrow> (w, Inl KeyError)
      | Some s \<Rightarrow>
          (case sem_release s of
             Inl ex \<Rightarrow> (w, Inl ex)
           | Inr s' \<Rightarrow>
               release_loop (w\<lparr>resource_dict := (resource_dict w)(r \<mapsto> s')\<rparr>) rs
                 (released @ [r])))"

text \<open>\<^verbatim>\<open>ResourceWarden.release\<close>.\<close>

definition warden_release :: "warden \<Rightarrow> string list \<Rightarrow> warden \<times> (exn + string list)" where
  "warden_release w resources = release_loop w resources []"

text \<open>
  The inner loop of \<^verbatim>\<open>ResourceWarden.acquire\<close> over the keys of a dictionary (lines
  23--26), with the locals \<^verbatim>\<open>acquired\<close> and \<^verbatim>\<open>success\<close>; \<^verbatim>\<open>success\<close> is \<open>None\<close> while it is
  not assigned.
\<close>

fun acquire_dict ::
  "warden \<Rightarrow> (string \<times> acquire_opts) list \<Rightarrow> string list \<Rightarrow> bool option \<Rightarrow>
   warden \<times> (string list \<times> bool option) outcome" where
  "acquire_dict w [] acquired success = (w, Returned (acquired, success))"
| "acquire_dict w ((r, opts) # rest) acquired success =
     (case resource_dict w r of
        None \<Rightarrow> (w, Raising KeyError)
      | Some s \<Rightarrow>
          (case sem_acquire (opt_block opts) (opt_timeout opts) s of
             None \<Rightarrow> (w, Blocked)
           | Some (ok, s') \<Rightarrow>
               acquire_dict (w\<lparr>resource_dict := (resource_dict w)(r \<mapsto> s')\<rparr>) rest
                 (if ok then acquired @ [r] else acquired) (Some ok)))"

text \<open>
  The outer loop of \<^verbatim>\<open>ResourceWarden.acquire\<close>. The test \<^verbatim>\<open>if not success\<close> comes after
  the whole argument, a name or a dictionary, has been handled; on an unassigned
  \<^verbatim>\<open>success\<close> it raises \<^verbatim>\<open>UnboundLocalError\<close>.
\<close>

fun acquire_loop ::
  "warden \<Rightarrow> resource_spec list \<Rightarrow> string list \<Rightarrow> bool option \<Rightarrow>
   warden \<times> string list outcome" where
  "acquire_loop w [] acquired success = (w, Returned acquired)"
| "acquire_loop w (resource # rest) acquired success =
     (case (case resource of
              Name r \<Rightarrow>
                (case resource_dict w r of
                   None \<Rightarrow> (w, Raising KeyError)
                 | Some s \<Rightarrow>
                     (case sem_acquire (block w) (timeout w) s of
                        None \<Rightarrow> (w, Blocked)
                      | Some (ok, s') \<Rightarrow>
                          (w\<lparr>resource_dict := (resource_dict w)(r \<mapsto> s')\<rparr>,
                           Returned (if ok then acquired @ [r] else acquired, Some ok))))
            | Options d \<Rightarrow> acquire_dict w d acquired success) of
        (w1, Raising ex) \<Rightarrow> (w1, Raising ex)
      | (w1, Blocked) \<Rightarrow> (w1, Blocked)
      | (w1, Returned (acquired1, success1)) \<Rightarrow>
          (case success1 of
             None \<Rightarrow> (w1, Raising UnboundLocalError)
           | Some ok \<Rightarrow>
               if \<not> ok then
                 (case warden_release w1 acquired1 of
                    (w2, Inl ex) \<Rightarrow> (w2, Raising ex)
                  | (w2, Inr released) \<Rightarrow> (w2, Returned []))
               else acquire_loop w1 rest acquired1 success1))"

text \<open>\<^verbatim>\<open>ResourceWarden.acquire\<close>.\<close>

definition warden_acquire :: "warden \<Rightarrow> resource_spec list \<Rightarrow> warden \<times> string list outcome" where
  "warden_acquire w resources = acquire_loop w resources [] None"

text \<open>
  A \<^verbatim>\<open>ResourceContainer\<close>: the ledger \<^verbatim>\<open>resources\<close>, the \<^verbatim>\<open>chunk_marker\<close> and the warden
  it releases through.
\<close>

record container =
  resources :: "string list"
  chunk_marker :: int
  resource_warden :: warden

text \<open>
  The position that a Python index denotes in a list of length n: a negative index counts
  from the end; \<open>None\<close> is the \<^verbatim>\<open>IndexError\<close>.
\<close>

definition py_index :: "nat \<Rightarrow> int \<Rightarrow> nat option" where
  "py_index n i =
     (if 0 \<le> i \<and> i < int n then Some (nat i)
      else if i < 0 \<and> - int n \<le> i then Some (nat (int n + i))
      else None)"

text \<open>
  \<^verbatim>\<open>ResourceContainer.release(index)\<close>; the default index is \<open>-1\<close>. The operator \<^verbatim>\<open>%\<close>
  with a positive right operand is \<open>mod\<close>.
\<close>

definition container_release :: "int \<Rightarrow> container \<Rightarrow> container \<times> (exn + string list)" where
  "container_release index c =
     (case py_index (length (resources c)) index of
        None \<Rightarrow> (c, Inl IndexError)
      | Some p \<Rightarrow>
          (case warden_release (resource_warden c) [resources c ! p] of
             (w, Inl ex) \<Rightarrow> (c\<lparr>resource_warden := w\<rparr>, Inl ex)
           | (w, Inr resource) \<Rightarrow>
               let c1 = c\<lparr>resource_warden := w\<rparr> in
               if resource \<noteq> [] then
                 (let c2 = c1\<lparr>resources := take p (resources c1) @ drop (Suc p) (resources c1)\<rparr>;
                      n = int (length (resources c2))
                  in
                    if n > 0 \<and> (n + index) mod n < chunk_marker c2 then
                      (let c3 = c2\<lparr>chunk_marker := chunk_marker c2 - 1\<rparr> in
                       if chunk_marker c3 < 0
                       then (c3, Inl (OtherException ''Exception''))
                       else (c3, Inr resource))
                    else (c2, Inr resource))
               else (c1, Inr resource)))"

text \<open>\<^verbatim>\<open>ResourceContainer.reset_chunk_marker\<close>.\<close>

definition reset_chunk_marker :: "container \<Rightarrow> container" where
  "reset_chunk_marker c = c\<lparr>chunk_marker := int (length (resources c))\<rparr>"

text \<open>
  A warden over three held resources and a container whose ledger lists them, the last one
  alone in the current chunk; a warden over an exhausted resource a and a free resource b.
\<close>

definition example_held_warden :: warden where
  "example_held_warden =
     \<lparr> resource_dict =
         [''x'' \<mapsto> \<lparr>sem_value = 0, sem_bound = 1\<rparr>,
          ''y'' \<mapsto> \<lparr>sem_value = 0, sem_bound = 1\<rparr>,
          ''z'' \<mapsto> \<lparr>sem_value = 0, sem_bound = 1\<rparr>],
       block = False, timeout = None \<rparr>"

definition example_container :: container where
  "example_container =
     \<lparr> resources = [''x'', ''y'', ''z''], chunk_marker = 2,
       resource_warden = example_held_warden \<rparr>"

definition example_warden :: warden where
  "example_warden =
     \<lparr> resource_dict =
         [''a'' \<mapsto> \<lparr>sem_value = 0, sem_bound = 1\<rparr>,
          ''b'' \<mapsto> \<lparr>sem_value = 1, sem_bound = 1\<rparr>],
       block = False, timeout = None \<rparr>"

definition no_wait :: acquire_opts where
  "no_wait = \<lparr>opt_block = False, opt_timeout = None\<rparr>"

section \<open>The escalation sequence: properties\<close>

lemma create_error_sequence_no_Zero:
  "no_repeat_forever cs \<Longrightarrow> Zero \<notin> set (create_error_sequence cs)"
  by (induction cs rule: create_error_sequence.induct) auto

lemma handle_exceptions_pop:
  assumes "\<not> bypass err" and "Zero \<notin> set (e # es)"
  shows "handle_exceptions (e # es) (Inl err) = (es, Inl (raise_entry e))"
proof -
  have "es \<noteq> [] \<Longrightarrow> es ! 0 \<noteq> Zero"
    using assms(2) by (cases es) auto
  then show ?thesis
    using assms(1) by (cases es) (auto simp: handle_exceptions_def)
qed

lemma failures_no_Zero:
  "Zero \<notin> set es \<Longrightarrow> unexpected errs \<Longrightarrow>
   failures es errs =
     (drop (length errs) es,
      map raise_entry (take (length errs) es) @ drop (length es) errs)"
proof (induction errs arbitrary: es)
  case Nil
  then show ?case by simp
next
  case (Cons err errs)
  show ?case
  proof (cases es)
    case Nil
    have "failures [] errs = ([], errs)"
      using Cons.IH [of "[]"] Cons.prems(2) by (simp add: unexpected_def)
    then show ?thesis
      using Nil Cons.prems(2) by (simp add: handle_exceptions_def unexpected_def)
  next
    case (Cons e es')
    have pop: "handle_exceptions (e # es') (Inl err :: exn + unit) = (es', Inl (raise_entry e))"
      using handle_exceptions_pop [of err e es'] Cons.prems Cons by (simp add: unexpected_def)
    have "failures es' errs =
       (drop (length errs) es',
        map raise_entry (take (length errs) es') @ drop (length es') errs)"
      using Cons.IH [of es'] Cons.prems Cons by (simp add: unexpected_def)
    then show ?thesis
      using Cons pop by simp
  qed
qed

text \<open>
  C2. An entity whose expanded escalation sequence has N entries and no repeat-forever
  entry: N consecutive unexpected failures pop the entries one by one, each raised in
  place of the failure (the sequence is empty afterwards), and the next unexpected failure
  is re-raised as it is, the sequence staying empty.
\<close>

theorem escalation_sequence_exhausted:
  assumes "no_repeat_forever cs"
    and "length errs = length (create_error_sequence cs)"
    and "unexpected (errs @ [err])"
  shows "failures (create_error_sequence cs) errs =
           ([], map raise_entry (create_error_sequence cs))
       \<and> failures (create_error_sequence cs) (errs @ [err]) =
           ([], map raise_entry (create_error_sequence cs) @ [err])
       \<and> (\<forall>i < length errs.
            failures (create_error_sequence cs) (take (Suc i) errs) =
              (drop (Suc i) (create_error_sequence cs),
               map raise_entry (take (Suc i) (create_error_sequence cs))))"
proof -
  let ?es = "create_error_sequence cs"
  have nz: "Zero \<notin> set ?es"
    using assms(1) by (rule create_error_sequence_no_Zero)
  have un: "unexpected errs"
    using assms(3) by (simp add: unexpected_def)
  have a: "failures ?es errs = ([], map raise_entry ?es)"
    using failures_no_Zero [OF nz un] assms(2) by simp
  have b: "failures ?es (errs @ [err]) = ([], map raise_entry ?es @ [err])"
    using failures_no_Zero [OF nz assms(3)] assms(2) by simp
  have c: "failures ?es (take (Suc i) errs) =
      (drop (Suc i) ?es, map raise_entry (take (Suc i) ?es))" if "i < length errs" for i
  proof -
    have "unexpected (take (Suc i) errs)"
      using un by (auto simp: unexpected_def list_all_iff dest: in_set_takeD)
    from failures_no_Zero [OF nz this] that assms(2) show ?thesis
      by (simp add: min_def)
  qed
  from a b c show ?thesis by blast
qed

theorem escalation_sequence_exhausted_witness:
  "no_repeat_forever [Rep StageReset 2, Cls TrialReset]
   \<and> unexpected ([OtherException ''RuntimeError'', Ignore, ValueError] @ [KeyError])
   \<and> failures (create_error_sequence [Rep StageReset 2, Cls TrialReset])
         [OtherException ''RuntimeError'', Ignore, ValueError] =
         ([], [StageReset, StageReset, TrialReset])
   \<and> failures (create_error_sequence [Rep StageReset 2, Cls TrialReset])
         ([OtherException ''RuntimeError'', Ignore, ValueError] @ [KeyError]) =
         ([], [StageReset, StageReset, TrialReset, KeyError])
   \<and> failures (create_error_sequence [Rep StageReset 2, Cls TrialReset])
         (take (Suc 1) [OtherException ''RuntimeError'', Ignore, ValueError]) =
         ([Exc TrialReset], [StageReset, StageReset])"
proof -
  have h1: "no_repeat_forever [Rep StageReset 2, Cls TrialReset]"
    by simp
  have h2: "length [OtherException ''RuntimeError'', Ignore, ValueError] =
      length (create_error_sequence [Rep StageReset 2, Cls TrialReset])"
    by (simp add: numeral_2_eq_2)
  have h3: "unexpected ([OtherException ''RuntimeError'', Ignore, ValueError] @ [KeyError])"
    by (simp add: unexpected_def bypass_def)
  have es: "create_error_sequence [Rep StageReset 2, Cls TrialReset] =
      [Exc StageReset, Exc StageReset, Exc TrialReset]"
    by (simp add: numeral_2_eq_2)
  have h4: "(1::nat) < length [OtherException ''RuntimeError'', Ignore, ValueError]"
    by simp
  from escalation_sequence_exhausted [OF h1 h2 h3] h4
  have "failures (create_error_sequence [Rep StageReset 2, Cls TrialReset])
         [OtherException ''RuntimeError'', Ignore, ValueError] =
         ([], map raise_entry (create_error_sequence [Rep StageReset 2, Cls TrialReset]))"
    and "failures (create_error_sequence [Rep StageReset 2, Cls TrialReset])
         ([OtherException ''RuntimeError'', Ignore, ValueError] @ [KeyError]) =
         ([], map raise_entry (create_error_sequence [Rep StageReset 2, Cls TrialReset])
              @ [KeyError])"
    and "failures (create_error_sequence [Rep StageReset 2, Cls TrialReset])
         (take (Suc 1) [OtherException ''RuntimeError'', Ignore, ValueError]) =
         (drop (Suc 1) (create_error_sequence [Rep StageReset 2, Cls TrialReset]),
          map raise_entry (take (Suc 1)
            (create_error_sequence [Rep StageReset 2, Cls TrialReset])))"
    by blast+
  then show ?thesis
    using h1 h3 unfolding es by (simp del: failures.simps)
qed

text \<open>
  C7. A compact sequence whose front entry has the repeat count 0: every unexpected
  failure routed through the flattened sequence raises the class of that front entry,
  however many failures follow one another, and the sequence is left as it was.
\<close>

theorem repeat_forever_never_consumed:
  assumes "unexpected errs"
  shows "failures (create_error_sequence (Rep c 0 # cs)) errs =
           (create_error_sequence (Rep c 0 # cs), replicate (length errs) c)"
  using assms
proof (induction errs)
  case Nil
  then show ?case by simp
next
  case (Cons err errs)
  have "handle_exceptions (Exc c # Zero # create_error_sequence cs) (Inl err :: exn + unit) =
      (Exc c # Zero # create_error_sequence cs, Inl c)"
    using Cons.prems by (simp add: handle_exceptions_def unexpected_def)
  then show ?case
    using Cons by (simp add: unexpected_def)
qed

theorem repeat_forever_never_consumed_witness:
  "unexpected [ValueError, Ignore, OtherException ''OSError'', KeyError]
   \<and> failures (create_error_sequence (Rep StageReset 0 # [Cls TrialAbort]))
         [ValueError, Ignore, OtherException ''OSError'', KeyError] =
         ([Exc StageReset, Zero, Exc TrialAbort],
          [StageReset, StageReset, StageReset, StageReset])"
proof -
  have h: "unexpected [ValueError, Ignore, OtherException ''OSError'', KeyError]"
    by (simp add: unexpected_def bypass_def)
  from repeat_forever_never_consumed [OF h, of StageReset "[Cls TrialAbort]"] h
  show ?thesis
    by (simp add: numeral_eq_Suc)
qed

text \<open>
  C6, as the claim states it, fails for \<^verbatim>\<open>Ignore\<close>: raised inside a wrapped operation
  of an entity whose sequence is \<^verbatim>\<open>[StageReset]\<close>, it is not re-raised; the entry is
  popped and \<^verbatim>\<open>StageReset\<close> is raised in its place.
\<close>

theorem ignore_is_escalated_counterexample:
  "handle_exceptions [Exc StageReset] (Inl Ignore :: exn + unit) = ([], Inl StageReset)
   \<and> handle_exceptions [Exc StageReset] (Inl Ignore :: exn + unit)
       \<noteq> ([Exc StageReset], Inl Ignore)"
  by (simp add: handle_exceptions_def bypass_def)

text \<open>
  C6, amended. \<^verbatim>\<open>TrialAbort\<close>, \<^verbatim>\<open>TrialReset\<close>, \<^verbatim>\<open>StageAbort\<close> and \<^verbatim>\<open>StageReset\<close> raised
  inside a wrapped operation are re-raised as they are and the escalation sequence is
  neither read nor changed. \<^verbatim>\<open>Ignore\<close>, \<^verbatim>\<open>ExperimentAbort\<close> and \<^verbatim>\<open>ExperimentReset\<close> are
  not in the pass-through clause: with a non-empty sequence they are translated exactly as
  any other failure is.
\<close>

theorem control_outcomes_bypass:
  "(e \<in> {TrialAbort, TrialReset, StageAbort, StageReset} \<longrightarrow>
      handle_exceptions es (Inl e :: exn + 'a) = (es, Inl e))
   \<and> (e \<in> {Ignore, ExperimentAbort, ExperimentReset} \<longrightarrow> es \<noteq> [] \<longrightarrow>
      handle_exceptions es (Inl e :: exn + 'a) =
        handle_exceptions es (Inl (OtherException name)))"
  by (auto simp: handle_exceptions_def bypass_def)

theorem control_outcomes_bypass_witness:
  "TrialAbort \<in> {TrialAbort, TrialReset, StageAbort, StageReset}
   \<and> handle_exceptions [Exc Ignore] (Inl TrialAbort :: exn + unit) = ([Exc Ignore], Inl TrialAbort)
   \<and> ExperimentAbort \<in> {Ignore, ExperimentAbort, ExperimentReset}
   \<and> [Exc Ignore] \<noteq> []
   \<and> handle_exceptions [Exc Ignore] (Inl ExperimentAbort :: exn + unit) =
        handle_exceptions [Exc Ignore] (Inl (OtherException ''RuntimeError''))"
  using control_outcomes_bypass [of TrialAbort "[Exc Ignore]"]
    control_outcomes_bypass [of ExperimentAbort "[Exc Ignore]" "''RuntimeError''"]
  by simp

section \<open>Trial.run: properties\<close>

lemma handle_exceptions_Inr [simp]: "handle_exceptions es (Inr v) = (es, Inr v)"
  by (simp add: handle_exceptions_def)

lemma emitted_single:
  "emitted [Returns st u] = (case u ''trial_results'' of None \<Rightarrow> [] | Some v \<Rightarrow> [v])"
  by (simp add: emitted_def split: option.splits)

lemma emitted_append: "emitted (rs @ rs') = emitted rs @ emitted rs'"
  by (simp add: emitted_def List.map_filter_def)

lemma emitted_Cons: "emitted (r # rs) = emitted [r] @ emitted rs"
  using emitted_append [of "[r]" rs] by simp

lemma absorb_fields:
  "stages (absorb u t) = stages t" "initial_results (absorb u t) = initial_results t"
  "stage_args (absorb u t) = stage_args t" "stage_index (absorb u t) = stage_index t"
  "trial_done (absorb u t) = trial_done t" "running (absorb u t) = running t"
  "error_sequence (absorb u t) = error_sequence t"
  "data (results (absorb u t)) =
     data (results t) @ (case u ''trial_results'' of None \<Rightarrow> [] | Some v \<Rightarrow> [v])"
  by (simp_all add: absorb_def Let_def add_data_def split: option.splits)

text \<open>
  One call of \<^verbatim>\<open>run\<close> whose stage call returns, on a trial that is not done, points at one
  of its stages and is running only a non-blocking stage.
\<close>

lemma run_returns_step:
  assumes "\<not> trial_done t" "stage_index t < length (stages t)" "stage_args t = Some sa"
    "running t \<longrightarrow> \<not> blocking (stages t ! stage_index t)"
  shows "\<exists>t'. run (Returns st u) t =
        (t', if completion_signal t (Returns st u) \<and> Suc (stage_index t) = length (stages t)
             then Inr (1, Some (results t')) else Inr (0, None))
     \<and> stages t' = stages t \<and> initial_results t' = initial_results t
     \<and> stage_args t' = stage_args t
     \<and> stage_index t' = stage_index t + (if completion_signal t (Returns st u) then 1 else 0)
     \<and> trial_done t' =
         (completion_signal t (Returns st u) \<and> Suc (stage_index t) = length (stages t))
     \<and> data (results t') = data (results t) @ emitted [Returns st u]
     \<and> (running t' \<longrightarrow> stage_index t' < length (stages t') \<longrightarrow>
          \<not> blocking (stages t' ! stage_index t'))"
  using assms
  by (auto simp: run_def run_body_def is_done_def completion_signal_def Let_def next_stage_def
      finish_def set_running_def unset_running_def absorb_fields emitted_single)

lemma run_all_append:
  "run_all (rs @ [r]) t =
     (case run_all rs t of (t1, outs) \<Rightarrow> (case run r t1 of (t2, out) \<Rightarrow> (t2, outs @ [out])))"
  by (induction rs arbitrary: t) (auto split: prod.splits)

lemma completion_signals_append:
  "completion_signals (rs @ [r]) t =
     completion_signals rs t + (if completion_signal (fst (run_all rs t)) r then 1 else 0)"
  by (induction rs arbitrary: t) (auto split: prod.splits)

text \<open>
  While fewer completion signals have arrived than stages remain, every call returns
  \<^verbatim>\<open>(0, None)\<close>, the trial is not done, and the index has moved by the number of signals.
\<close>

lemma run_all_returns:
  assumes "all_return rs" "\<not> trial_done t" "stage_args t = Some sa"
    "running t \<longrightarrow> \<not> blocking (stages t ! stage_index t)"
    "stage_index t + completion_signals rs t < length (stages t)"
  shows "\<exists>t'. run_all rs t = (t', replicate (length rs) (Inr (0, None)))
     \<and> \<not> trial_done t' \<and> stages t' = stages t \<and> initial_results t' = initial_results t
     \<and> stage_args t' = stage_args t
     \<and> stage_index t' = stage_index t + completion_signals rs t
     \<and> data (results t') = data (results t) @ emitted rs
     \<and> (running t' \<longrightarrow> \<not> blocking (stages t' ! stage_index t'))"
  using assms
proof (induction rs arbitrary: t)
  case Nil
  then show ?case by (simp add: emitted_def)
next
  case (Cons r rs)
  from Cons.prems(1) obtain st u where r: "r = Returns st u"
    by (cases r) (auto simp: all_return_def)
  have idx: "stage_index t < length (stages t)"
    using Cons.prems(5) by simp
  from run_returns_step [OF Cons.prems(2) idx Cons.prems(3) Cons.prems(4), of st u]
  obtain t1 where t1:
    "run (Returns st u) t =
        (t1, if completion_signal t (Returns st u) \<and> Suc (stage_index t) = length (stages t)
             then Inr (1, Some (results t1)) else Inr (0, None))"
    "stages t1 = stages t" "initial_results t1 = initial_results t"
    "stage_args t1 = stage_args t"
    "stage_index t1 = stage_index t + (if completion_signal t (Returns st u) then 1 else 0)"
    "trial_done t1 =
       (completion_signal t (Returns st u) \<and> Suc (stage_index t) = length (stages t))"
    "data (results t1) = data (results t) @ emitted [Returns st u]"
    "running t1 \<longrightarrow> stage_index t1 < length (stages t1) \<longrightarrow>
       \<not> blocking (stages t1 ! stage_index t1)"
    by blast
  have sig: "completion_signals (r # rs) t =
      (if completion_signal t (Returns st u) then 1 else 0) + completion_signals rs t1"
    using r t1(1) by simp
  have lt: "stage_index t1 + completion_signals rs t1 < length (stages t1)"
    using Cons.prems(5) sig t1(2) t1(5) by simp
  have nd: "\<not> trial_done t1"
    using t1(6) Cons.prems(5) sig by auto
  have out: "run (Returns st u) t = (t1, Inr (0, None))"
    using t1(1) t1(6) nd by simp
  have run1: "running t1 \<longrightarrow> \<not> blocking (stages t1 ! stage_index t1)"
    using t1(8) lt by simp
  have ar: "all_return rs"
    using Cons.prems(1) by (simp add: all_return_def)
  have sa1: "stage_args t1 = Some sa"
    using t1(4) Cons.prems(3) by simp
  from Cons.IH [OF ar nd sa1 run1 lt]
  obtain t' where t':
    "run_all rs t1 = (t', replicate (length rs) (Inr (0, None)))"
    "\<not> trial_done t'" "stages t' = stages t1" "initial_results t' = initial_results t1"
    "stage_args t' = stage_args t1"
    "stage_index t' = stage_index t1 + completion_signals rs t1"
    "data (results t') = data (results t1) @ emitted rs"
    "running t' \<longrightarrow> \<not> blocking (stages t' ! stage_index t')"
    by blast
  have "run_all (r # rs) t = (t', replicate (length (r # rs)) (Inr (0, None)))"
    using r out t'(1) by simp
  moreover have "stage_index t' = stage_index t + completion_signals (r # rs) t"
    using t'(6) t1(5) sig by simp
  moreover have "data (results t') = data (results t) @ emitted (r # rs)"
    using t'(7) t1(7) r emitted_Cons [of r rs] by simp
  ultimately show ?case
    using t'(2,3,4,5,8) t1(2,3,4) by simp
qed

lemma new_trial_ok:
  assumes "new_trial args kwargs t0 = (t, Inr ())"
  shows "\<not> trial_done t" "stage_index t = 0" "\<not> running t" "stage_args t \<noteq> None"
    "results t = initial_results t0" "initial_results t = initial_results t0"
    "length (stages t) = length (stages t0)"
  using assms
  by (auto simp: new_trial_def Let_def unset_running_def split: list.splits)

text \<open>
  C1, amended. A trial started by \<^verbatim>\<open>new_trial\<close> whose stage calls all return (no control
  outcome, no other failure): when the K-th completion signal arrives, K the number of
  stages, that call of \<^verbatim>\<open>run\<close> returns status 1 with the results and the trial is done;
  every earlier call returned \<^verbatim>\<open>(0, None)\<close> and the trial was not done before. The results
  then hold the data of the \<^verbatim>\<open>results\<close> argument that the trial was constructed with
  (none by default), followed by exactly the \<^verbatim>\<open>trial_results\<close> values of the updates that
  the stage calls returned, in call order, which is stage order.
\<close>

theorem trial_done_after_all_stages_complete:
  assumes "new_trial args kwargs t0 = (t, Inr ())"
    and "all_return (rs @ [r])"
    and "completion_signals rs t < length (stages t)"
    and "completion_signals (rs @ [r]) t = length (stages t)"
  shows "snd (run_all (rs @ [r]) t) =
           replicate (length rs) (Inr (0, None)) @
           [Inr (1, Some (results (fst (run_all (rs @ [r]) t))))]
       \<and> is_done (fst (run_all (rs @ [r]) t))
       \<and> \<not> is_done (fst (run_all rs t))
       \<and> data (results (fst (run_all (rs @ [r]) t))) =
           data (initial_results t0) @ emitted (rs @ [r])"
proof -
  note nt = new_trial_ok [OF assms(1)]
  obtain sa where sa: "stage_args t = Some sa"
    using nt(4) by auto
  have ar: "all_return rs" and "all_return [r]"
    using assms(2) by (simp_all add: all_return_def)
  then obtain st u where r: "r = Returns st u"
    by (cases r) (auto simp: all_return_def)
  have run0: "running t \<longrightarrow> \<not> blocking (stages t ! stage_index t)"
    using nt(3) by simp
  have lt: "stage_index t + completion_signals rs t < length (stages t)"
    using assms(3) nt(2) by simp
  from run_all_returns [OF ar nt(1) sa run0 lt]
  obtain t1 where t1:
    "run_all rs t = (t1, replicate (length rs) (Inr (0, None)))"
    "\<not> trial_done t1" "stages t1 = stages t" "initial_results t1 = initial_results t"
    "stage_args t1 = stage_args t"
    "stage_index t1 = stage_index t + completion_signals rs t"
    "data (results t1) = data (results t) @ emitted rs"
    "running t1 \<longrightarrow> \<not> blocking (stages t1 ! stage_index t1)"
    by blast
  have sig: "completion_signal t1 r" and last: "Suc (stage_index t1) = length (stages t1)"
    using assms(3,4) completion_signals_append [of rs r t] t1(1,3,6) nt(2)
    by (auto split: if_splits)
  have idx: "stage_index t1 < length (stages t1)"
    using last by simp
  have sa1: "stage_args t1 = Some sa"
    using t1(5) sa by simp
  from run_returns_step [OF t1(2) idx sa1 t1(8), of st u] sig last r
  obtain t2 where t2:
    "run r t1 = (t2, Inr (1, Some (results t2)))" "trial_done t2"
    "data (results t2) = data (results t1) @ emitted [r]"
    by auto
  have all: "run_all (rs @ [r]) t =
      (t2, replicate (length rs) (Inr (0, None)) @ [Inr (1, Some (results t2))])"
    using run_all_append [of rs r t] t1(1) t2(1) by simp
  have "data (results t2) = data (initial_results t0) @ emitted (rs @ [r])"
    using t2(3) t1(7) nt(5) emitted_append [of rs "[r]"] by simp
  then show ?thesis
    using all t2(2) t1(1,2) by (simp add: is_done_def)
qed

lemma example_trial_eq:
  "example_trial =
     \<lparr> error_sequence = [], original_error_sequence = [],
       state = Map.empty, initial_state = Map.empty, state_checkpoint = Map.empty,
       stage_index = 0, stages = [example_blocking_stage, example_polling_stage],
       running = False,
       initial_results = \<lparr>data = [], metadata = Map.empty\<rparr>,
       results = \<lparr>data = [], metadata = Map.empty\<rparr>,
       trial_done = False, multiple_results = False, errors = 0, fails = 0,
       stage_args = Some [Map.empty, Map.empty] \<rparr>"
  by (simp add: example_trial_def example_trial_init_def Trial_init_def new_trial_def Let_def
      unset_running_def reset_error_sequence_def example_blocking_stage_def
      example_polling_stage_def numeral_2_eq_2)

lemma example_new_trial:
  "new_trial None Map.empty example_trial_init = (example_trial, Inr ())"
  by (simp add: example_trial_def example_trial_init_def Trial_init_def new_trial_def Let_def
      numeral_2_eq_2)

lemmas run_simps =
  run_def run_body_def is_done_def Let_def next_stage_def finish_def set_running_def
  unset_running_def absorb_def add_data_def reset_stage_def

theorem trial_done_after_all_stages_complete_witness:
  "new_trial None Map.empty example_trial_init = (example_trial, Inr ())
   \<and> all_return ([Returns 1 [''trial_results'' \<mapsto> 5::nat],
        Returns 1 [''trial_results'' \<mapsto> 6], Returns 0 Map.empty]
        @ [Returns 1 [''trial_results'' \<mapsto> 7]])
   \<and> completion_signals [Returns 1 [''trial_results'' \<mapsto> 5],
        Returns 1 [''trial_results'' \<mapsto> 6], Returns 0 Map.empty] example_trial
        < length (stages example_trial)
   \<and> completion_signals ([Returns 1 [''trial_results'' \<mapsto> 5],
        Returns 1 [''trial_results'' \<mapsto> 6], Returns 0 Map.empty]
        @ [Returns 1 [''trial_results'' \<mapsto> 7]]) example_trial
        = length (stages example_trial)
   \<and> snd (run_all ([Returns 1 [''trial_results'' \<mapsto> 5],
        Returns 1 [''trial_results'' \<mapsto> 6], Returns 0 Map.empty]
        @ [Returns 1 [''trial_results'' \<mapsto> 7]]) example_trial) =
       [Inr (0, None), Inr (0, None), Inr (0, None)] @
       [Inr (1, Some (results (fst (run_all ([Returns 1 [''trial_results'' \<mapsto> 5],
        Returns 1 [''trial_results'' \<mapsto> 6], Returns 0 Map.empty]
        @ [Returns 1 [''trial_results'' \<mapsto> 7]]) example_trial))))]
   \<and> is_done (fst (run_all ([Returns 1 [''trial_results'' \<mapsto> 5],
        Returns 1 [''trial_results'' \<mapsto> 6], Returns 0 Map.empty]
        @ [Returns 1 [''trial_results'' \<mapsto> 7]]) example_trial))
   \<and> data (results (fst (run_all ([Returns 1 [''trial_results'' \<mapsto> 5],
        Returns 1 [''trial_results'' \<mapsto> 6], Returns 0 Map.empty]
        @ [Returns 1 [''trial_results'' \<mapsto> 7]]) example_trial))) = [5, 6, 7]"
proof -
  let ?rs = "[Returns 1 [''trial_results'' \<mapsto> 5], Returns 1 [''trial_results'' \<mapsto> 6],
        Returns 0 Map.empty] :: nat response list"
  let ?r = "Returns 1 [''trial_results'' \<mapsto> 7] :: nat response"
  have h2: "all_return (?rs @ [?r])"
    by (simp add: all_return_def)
  have h3: "completion_signals ?rs example_trial < length (stages example_trial)"
    by (simp add: example_trial_eq completion_signal_def run_simps
        example_blocking_stage_def example_polling_stage_def)
  have h4: "completion_signals (?rs @ [?r]) example_trial = length (stages example_trial)"
    by (simp add: example_trial_eq completion_signal_def run_simps
        example_blocking_stage_def example_polling_stage_def)
  have em: "emitted (?rs @ [?r]) = [5, 6, 7]"
    by (simp add: emitted_def)
  have ini: "data (initial_results example_trial_init) = []"
    by (simp add: example_trial_init_def Trial_init_def)
  from trial_done_after_all_stages_complete [OF example_new_trial h2 h3 h4]
  show ?thesis
    using example_new_trial h2 h3 h4 unfolding em ini
    by (simp del: run_all.simps completion_signals.simps)
qed

lemma example_seeded_trial_eq:
  "example_seeded_trial =
     \<lparr> error_sequence = [], original_error_sequence = [],
       state = Map.empty, initial_state = Map.empty, state_checkpoint = Map.empty,
       stage_index = 0, stages = [example_blocking_stage],
       running = False,
       initial_results = \<lparr>data = [42], metadata = Map.empty\<rparr>,
       results = \<lparr>data = [42], metadata = Map.empty\<rparr>,
       trial_done = False, multiple_results = False, errors = 0, fails = 0,
       stage_args = Some [Map.empty] \<rparr>"
  by (simp add: example_seeded_trial_def example_seeded_trial_init_def Trial_init_def
      new_trial_def Let_def unset_running_def reset_error_sequence_def
      example_blocking_stage_def)

text \<open>
  C1, as the claim states it, fails for a trial constructed with results: a trial of one
  blocking stage, built with \<^verbatim>\<open>results = TrialResults([42])\<close> and started by
  \<^verbatim>\<open>new_trial()\<close>, whose stage returns \<^verbatim>\<open>(1, {"trial_results": 5})\<close>. The one completion
  signal ends the trial, and its results are 42 and 5, not exactly the value 5 that the
  stage supplied.
\<close>

theorem seeded_results_counterexample:
  "new_trial None Map.empty example_seeded_trial_init = (example_seeded_trial, Inr ())
   \<and> length (stages example_seeded_trial) = 1
   \<and> all_return [Returns 1 [''trial_results'' \<mapsto> 5::nat]]
   \<and> completion_signals [Returns 1 [''trial_results'' \<mapsto> 5]] example_seeded_trial = 1
   \<and> snd (run (Returns 1 [''trial_results'' \<mapsto> 5]) example_seeded_trial) =
       Inr (1, Some \<lparr>data = [42, 5], metadata = Map.empty\<rparr>)
   \<and> is_done (fst (run (Returns 1 [''trial_results'' \<mapsto> 5]) example_seeded_trial))
   \<and> emitted [Returns 1 [''trial_results'' \<mapsto> 5::nat]] = [5]
   \<and> data (results (fst (run (Returns 1 [''trial_results'' \<mapsto> 5]) example_seeded_trial)))
       = [42, 5]
   \<and> data (results (fst (run (Returns 1 [''trial_results'' \<mapsto> 5]) example_seeded_trial)))
       \<noteq> emitted [Returns 1 [''trial_results'' \<mapsto> 5]]"
proof -
  have "new_trial None Map.empty example_seeded_trial_init = (example_seeded_trial, Inr ())"
    by (simp add: example_seeded_trial_def example_seeded_trial_init_def Trial_init_def
        new_trial_def Let_def)
  moreover have "emitted [Returns 1 [''trial_results'' \<mapsto> 5::nat]] = [5]"
    by (simp add: emitted_def)
  ultimately show ?thesis
    by (simp add: example_seeded_trial_eq run_simps completion_signal_def all_return_def
        example_blocking_stage_def)
qed

lemma example_polling_trial_eq:
  "example_polling_trial =
     \<lparr> error_sequence = [], original_error_sequence = [],
       state = Map.empty, initial_state = Map.empty, state_checkpoint = Map.empty,
       stage_index = 0, stages = [example_polling_stage],
       running = False,
       initial_results = \<lparr>data = [], metadata = Map.empty\<rparr>,
       results = \<lparr>data = [], metadata = Map.empty\<rparr>,
       trial_done = False, multiple_results = False, errors = 0, fails = 0,
       stage_args = Some [Map.empty] \<rparr>"
  by (simp add: example_polling_trial_def example_polling_trial_init_def Trial_init_def
      new_trial_def Let_def unset_running_def reset_error_sequence_def
      example_polling_stage_def)

lemma example_blocking_trial_eq:
  "example_blocking_trial =
     \<lparr> error_sequence = [], original_error_sequence = [],
       state = Map.empty, initial_state = Map.empty, state_checkpoint = Map.empty,
       stage_index = 0, stages = [example_blocking_stage],
       running = False,
       initial_results = \<lparr>data = [], metadata = Map.empty\<rparr>,
       results = \<lparr>data = [], metadata = Map.empty\<rparr>,
       trial_done = False, multiple_results = False, errors = 0, fails = 0,
       stage_args = Some [Map.empty] \<rparr>"
  by (simp add: example_blocking_trial_def example_blocking_trial_init_def Trial_init_def
      new_trial_def Let_def unset_running_def reset_error_sequence_def
      example_blocking_stage_def)

text \<open>
  The blocking path: \<^verbatim>\<open>StageAbort\<close> from the \<^verbatim>\<open>start\<close> of the last stage completes the
  trial in the same call.
\<close>

lemma stage_abort_last_blocking_stage:
  "snd (run (Raises StageAbort) example_blocking_trial) =
     Inr (1, Some \<lparr>data = [], metadata = Map.empty\<rparr>)
   \<and> is_done (fst (run (Raises StageAbort) example_blocking_trial))
   \<and> stage_index (fst (run (Raises StageAbort) example_blocking_trial)) = 1"
  by (simp add: example_blocking_trial_eq run_simps example_blocking_stage_def)

text \<open>
  C5 fails on the non-blocking path. A trial whose only stage is non-blocking, and whose
  \<^verbatim>\<open>start\<close> raises \<^verbatim>\<open>StageAbort\<close>: \<^verbatim>\<open>run\<close> advances \<^verbatim>\<open>stage_index\<close> to the number of
  stages and returns \<^verbatim>\<open>(0, None)\<close> at once, so the trial is not marked done and no results
  are returned; the next call of \<^verbatim>\<open>run\<close> indexes past the last stage.
\<close>

theorem stage_abort_last_polling_stage_not_done:
  "snd (run (Raises StageAbort) example_polling_trial) = Inr (0, None)
   \<and> stage_index (fst (run (Raises StageAbort) example_polling_trial)) =
       length (stages (fst (run (Raises StageAbort) example_polling_trial)))
   \<and> \<not> is_done (fst (run (Raises StageAbort) example_polling_trial))
   \<and> snd (run r (fst (run (Raises StageAbort) example_polling_trial))) = Inl IndexError"
  by (simp add: example_polling_trial_eq run_simps example_polling_stage_def
      handle_exceptions_def bypass_def)

section \<open>Keyword overrides of new\_trial\<close>

lemma absorb_initial_state: "initial_state (absorb u t) = initial_state t"
  by (simp add: absorb_def Let_def split: option.splits)

lemma next_stage_initial_state: "initial_state (fst (next_stage t)) = initial_state t"
  by (simp add: next_stage_def Let_def split: option.splits)

lemma finish_initial_state: "initial_state (fst (finish b t)) = initial_state t"
  by (simp add: finish_def)

lemma run_body_initial_state: "initial_state (fst (run_body r t)) = initial_state t"
proof -
  have ns: "initial_state t2 = initial_state t1" if "next_stage t1 = (t2, out)" for t1 t2 out
    using next_stage_initial_state [of t1] that by simp
  have fi: "initial_state t2 = initial_state t1" if "finish b t1 = (t2, out)" for b t1 t2 out
    using finish_initial_state [of b t1] that by simp
  show ?thesis
    by (cases "run_body r t")
      (auto simp: run_body_def Let_def absorb_initial_state set_running_def unset_running_def
        reset_stage_def
        split: if_splits response.splits sum.splits prod.splits dest!: ns fi)
qed

lemma run_initial_state: "initial_state (fst (run r t)) = initial_state t"
proof (cases "run_body r t")
  case (Pair t1 out)
  then show ?thesis
    using run_body_initial_state [of r t] by (simp add: run_def split: prod.splits)
qed

lemma reset_initial_state: "initial_state (fst (reset t)) = initial_state t"
  by (simp add: reset_def Let_def unset_running_def split: option.splits list.splits)

lemma new_trial_initial_state:
  "initial_state (fst (new_trial args kwargs t)) = initial_state t ++ kwargs"
  by (simp add: new_trial_def Let_def unset_running_def split: list.splits)

lemma call_initial_state:
  "\<not> passes_key k c \<Longrightarrow> initial_state (call c t) k = initial_state t k"
  by (cases c)
    (simp_all add: reset_stage_def unset_running_def set_running_def setup_trial_def set_done_def
      Let_def reset_initial_state new_trial_initial_state next_stage_initial_state
      run_initial_state map_add_def)

lemma calls_initial_state:
  "list_all (\<lambda>c. \<not> passes_key k c) cs \<Longrightarrow> initial_state (calls cs t) k = initial_state t k"
  by (induction cs arbitrary: t) (simp_all add: call_initial_state)

lemma reset_state:
  "stage_args t = Some (a # as) \<Longrightarrow> state (fst (reset t)) = initial_state t ++ a"
  by (simp add: reset_def Let_def unset_running_def)

lemma new_trial_state:
  "effective_stage_args args t = a # as \<Longrightarrow>
   state (fst (new_trial args kwargs t)) = initial_state t ++ kwargs ++ a"
  by (simp add: new_trial_def effective_stage_args_def Let_def unset_running_def)

text \<open>
  C10. A keyword override \<open>k = v\<close> passed to \<^verbatim>\<open>new_trial\<close> is written into
  \<^verbatim>\<open>initial_state\<close> and stays there through every later sequence of calls on the trial
  in which no \<^verbatim>\<open>new_trial\<close> passes the key \<open>k\<close> again. A later \<^verbatim>\<open>reset()\<close>, and a later
  \<^verbatim>\<open>new_trial\<close> that does not pass \<open>k\<close>, therefore rebuild the state with \<open>k = v\<close>, on top
  of which only the argument overlay of the first stage is laid.
\<close>

theorem new_trial_overrides_persist:
  assumes "kwargs k = Some v"
    and "list_all (\<lambda>c. \<not> passes_key k c) cs"
  shows "initial_state (calls cs (fst (new_trial args kwargs t))) k = Some v
     \<and> (\<forall>a as. stage_args (calls cs (fst (new_trial args kwargs t))) = Some (a # as) \<longrightarrow>
          state (fst (reset (calls cs (fst (new_trial args kwargs t))))) k =
            (case a k of None \<Rightarrow> Some v | Some w \<Rightarrow> Some w))
     \<and> (\<forall>args' kwargs' a as. kwargs' k = None \<longrightarrow>
          effective_stage_args args' (calls cs (fst (new_trial args kwargs t))) = a # as \<longrightarrow>
          state (fst (new_trial args' kwargs' (calls cs (fst (new_trial args kwargs t))))) k =
            (case a k of None \<Rightarrow> Some v | Some w \<Rightarrow> Some w))"
proof -
  let ?t = "calls cs (fst (new_trial args kwargs t))"
  have ini: "initial_state ?t k = Some v"
    using calls_initial_state [OF assms(2)] assms(1)
    by (simp add: new_trial_initial_state)
  have a: "state (fst (reset ?t)) k = (case a k of None \<Rightarrow> Some v | Some w \<Rightarrow> Some w)"
    if "stage_args ?t = Some (a # as)" for a as
    using reset_state [OF that] ini by (simp add: map_add_def split: option.splits)
  have b: "state (fst (new_trial args' kwargs' ?t)) k =
      (case a k of None \<Rightarrow> Some v | Some w \<Rightarrow> Some w)"
    if "kwargs' k = None" "effective_stage_args args' ?t = a # as" for args' kwargs' a as
    using new_trial_state [OF that(2), of kwargs'] ini that(1)
    by (simp add: map_add_def split: option.splits)
  from ini a b show ?thesis by blast
qed

theorem new_trial_overrides_persist_witness:
  "[''seed'' \<mapsto> 3::nat] ''seed'' = Some 3
   \<and> list_all (\<lambda>c. \<not> passes_key ''seed'' c)
        [Call_reset, Call_new_trial None [''other'' \<mapsto> 1::nat], Call_run (Returns 1 Map.empty)]
   \<and> initial_state
        (calls [Call_reset, Call_new_trial None [''other'' \<mapsto> 1], Call_run (Returns 1 Map.empty)]
          (fst (new_trial None [''seed'' \<mapsto> 3] example_trial_init))) ''seed'' = Some 3
   \<and> state (fst (reset
        (calls [Call_reset, Call_new_trial None [''other'' \<mapsto> 1], Call_run (Returns 1 Map.empty)]
          (fst (new_trial None [''seed'' \<mapsto> 3] example_trial_init))))) ''seed'' = Some 3
   \<and> state (fst (new_trial None Map.empty
        (calls [Call_reset, Call_new_trial None [''other'' \<mapsto> 1], Call_run (Returns 1 Map.empty)]
          (fst (new_trial None [''seed'' \<mapsto> 3] example_trial_init))))) ''seed'' = Some 3"
proof -
  let ?cs = "[Call_reset, Call_new_trial None [''other'' \<mapsto> 1::nat],
      Call_run (Returns 1 Map.empty)]"
  let ?t = "calls ?cs (fst (new_trial None [''seed'' \<mapsto> 3] example_trial_init))"
  have h1: "[''seed'' \<mapsto> 3::nat] ''seed'' = Some 3"
    by simp
  have h2: "list_all (\<lambda>c. \<not> passes_key ''seed'' c) ?cs"
    by simp
  have sa: "stage_args ?t = Some (Map.empty # [Map.empty])"
    by (simp add: example_trial_init_def Trial_init_def new_trial_def reset_def run_simps
        example_blocking_stage_def example_polling_stage_def reset_error_sequence_def
        numeral_2_eq_2)
  have ea: "effective_stage_args None ?t = Map.empty # [Map.empty]"
    by (simp add: effective_stage_args_def example_trial_init_def Trial_init_def new_trial_def
        reset_def run_simps example_blocking_stage_def example_polling_stage_def
        reset_error_sequence_def numeral_2_eq_2)
  have none: "(Map.empty :: nat dict) ''seed'' = None"
    by simp
  from new_trial_overrides_persist
    [where kwargs = "[''seed'' \<mapsto> 3::nat]" and k = "''seed''" and v = 3 and cs = ?cs
      and args = None and t = example_trial_init, OF h1 h2]
  have "initial_state ?t ''seed'' = Some 3"
    and "state (fst (reset ?t)) ''seed'' = Some 3"
    and "state (fst (new_trial None Map.empty ?t)) ''seed'' = Some 3"
    using sa ea none by (blast, force, force)
  then show ?thesis
    using h1 h2 by blast
qed

section \<open>Resources: properties\<close>

text \<open>
  The path for names: of \<^verbatim>\<open>acquire("b", "a")\<close>, b is taken and a fails; b is released
  again and the result is empty.
\<close>

lemma warden_acquire_names_rollback:
  "snd (warden_acquire example_warden [Name ''b'', Name ''a'']) = Returned []
   \<and> map_option sem_value
        (resource_dict (fst (warden_acquire example_warden [Name ''b'', Name ''a''])) ''b'')
       = Some 1"
  by (simp add: warden_acquire_def example_warden_def sem_acquire_def sem_release_def
      warden_release_def)

text \<open>
  C3 fails for a dictionary argument. In \<^verbatim>\<open>acquire({"a": ..., "b": ...})\<close> with a exhausted
  and b free, the acquisition of a fails, the loop over the dictionary goes on to b, and
  the test after the loop sees only the success of b: the call returns \<^verbatim>\<open>["b"]\<close> and
  leaves b held, where the claim has an empty result and nothing outstanding.
\<close>

theorem warden_acquire_dict_keeps_partial_success:
  "map_option sem_value (resource_dict example_warden ''a'') = Some 0
   \<and> map_option sem_value (resource_dict example_warden ''b'') = Some 1
   \<and> snd (warden_acquire example_warden [Options [(''a'', no_wait), (''b'', no_wait)]])
       = Returned [''b'']
   \<and> map_option sem_value
        (resource_dict
          (fst (warden_acquire example_warden [Options [(''a'', no_wait), (''b'', no_wait)]]))
          ''b'')
       = Some 0"
  by (simp add: warden_acquire_def example_warden_def no_wait_def sem_acquire_def)

text \<open>
  C4 fails when the released entry lies in the current chunk. The ledger is x, y, z and
  the marker is 2, so the chunk is z alone. \<^verbatim>\<open>release()\<close> removes z, at position 2, which is
  not before the marker; the test of line 69 is \<^verbatim>\<open>(2 + -1) % 2 < 2\<close> and the marker drops
  to 1, which puts y into the chunk.
\<close>

theorem container_release_moves_marker_into_ledger:
  "py_index (length (resources example_container)) (- 1) = Some 2
   \<and> chunk_marker example_container = 2
   \<and> snd (container_release (- 1) example_container) = Inr [''z'']
   \<and> resources (fst (container_release (- 1) example_container)) = [''x'', ''y'']
   \<and> chunk_marker (fst (container_release (- 1) example_container)) = 1"
  by (simp add: container_release_def example_container_def example_held_warden_def
      py_index_def warden_release_def sem_release_def Let_def)

text \<open>An entry before the marker: the marker follows it, as the comment of the code says.\<close>

lemma container_release_before_marker:
  "resources (fst (container_release 0 example_container)) = [''y'', ''z'']
   \<and> chunk_marker (fst (container_release 0 example_container)) = 1"
  by (simp add: container_release_def example_container_def example_held_warden_def
      py_index_def warden_release_def sem_release_def Let_def)

section \<open>The experiment loop: properties\<close>

lemma new_trial_succeeds:
  assumes "snd (new_trial args kwargs t) = Inr ()"
  shows "\<not> trial_done (fst (new_trial args kwargs t))"
    and "stage_index (fst (new_trial args kwargs t)) = 0"
  using assms
  by (auto simp: new_trial_def Let_def unset_running_def split: list.splits)

lemma bind_new_trial_raises:
  "bind_new_trial copy instance_config arg = Inl ex \<Longrightarrow> ex = TypeError"
  by (simp add: bind_new_trial_def split: if_splits)

lemma call_new_trial_pending:
  assumes "call_new_trial copy instance_config pending trial = ((pending1, trial1), out, passed)"
  shows "suffix (rev passed) pending
     \<and> (out \<noteq> Inl TypeError \<longrightarrow> pending = pending1 @ rev passed)"
proof (cases "pending = []")
  case True
  then show ?thesis
    using assms by (auto simp: call_new_trial_def split: if_splits)
next
  case False
  then have bl: "pending = butlast pending @ [last pending]"
    by simp
  have sf: "suffix [last pending] pending"
    using bl by (metis suffixI)
  show ?thesis
    using assms False bl sf
    by (auto simp: call_new_trial_def Let_def split: if_splits sum.splits prod.splits
        dest: bind_new_trial_raises)
qed

lemma call_new_trial_returns:
  assumes "call_new_trial copy instance_config pending trial = ((pending1, trial1), Inr (), passed)"
  shows "pending \<noteq> [] \<and> pending1 = butlast pending \<and> passed = [last pending]
     \<and> (\<exists>args kwargs. bind_new_trial copy instance_config (last pending) = Inr (args, kwargs)
           \<and> trial1 = fst (new_trial args kwargs trial)
           \<and> snd (new_trial args kwargs trial) = Inr ())"
  using assms
  by (auto simp: call_new_trial_def Let_def split: if_splits sum.splits prod.splits)

lemma fill_try_trial_abort:
  "run r trial = (trial1, Inl TrialAbort) \<Longrightarrow>
   fill_try r trial = (trial1, Inr (1, Some (results trial1)))"
  by (simp add: fill_try_def)

lemma example_keywords:
  "other_entries no_keywords = []" "keyword_names no_keywords = []"
  "kw_stage_args no_keywords = None"
  "other_entries example_arg_first = [(''n'', 1)]" "keyword_names example_arg_first = [''n'']"
  "kw_stage_args example_arg_first = None"
  "other_entries example_arg_second = [(''n'', 2)]" "keyword_names example_arg_second = [''n'']"
  "kw_stage_args example_arg_second = None"
  "other_entries example_arg_other = [(''m'', 5)]" "keyword_names example_arg_other = [''m'']"
  "kw_stage_args example_arg_other = None"
  "other_entries \<lparr>kw_stage_args = None, kw_entries = [(''n'', 0::nat)]\<rparr> = [(''n'', 0)]"
  "keyword_names \<lparr>kw_stage_args = None, kw_entries = [(''n'', 0::nat)]\<rparr> = [''n'']"
  by (simp_all add: other_entries_def keyword_names_def no_keywords_def example_arg_first_def
      example_arg_second_def example_arg_other_def)

text \<open>
  C9, as the claim states it, fails twice. In a pass of the first loop whose
  \<^verbatim>\<open>trial.run()\<close> raises \<^verbatim>\<open>TrialAbort\<close>, the slot is not done afterwards. And such a pass
  can end the loop: started on the argument set without the key n, the slot raises
  \<^verbatim>\<open>TrialAbort\<close> in the third pass, the set with the key n is popped, and the call of
  \<^verbatim>\<open>new_trial\<close> raises \<^verbatim>\<open>TypeError\<close>, since the base configuration has that key too.
\<close>

theorem fill_pass_trial_abort_counterexample:
  "snd (run (Raises TrialAbort) (trial_instances example_experiment_started ! 0))
     = Inl TrialAbort
   \<and> \<not> is_done
        (trial_instances
          (fst (fst (fill_pass (Raises TrialAbort) 0 example_experiment_started))) ! 0)
   \<and> snd (fst (fill_phase [Returns 0 Map.empty, Returns 1 [''trial_results'' \<mapsto> 9]] 0
          example_experiment_clash)) = (0, Still_running)
   \<and> snd (run (Raises TrialAbort)
        (trial_instances
          (fst (fst (fill_phase [Returns 0 Map.empty, Returns 1 [''trial_results'' \<mapsto> 9]] 0
             example_experiment_clash))) ! 0))
     = Inl TrialAbort
   \<and> fst (snd (fill_pass (Raises TrialAbort) 0
        (fst (fst (fill_phase [Returns 0 Map.empty, Returns 1 [''trial_results'' \<mapsto> 9]] 0
           example_experiment_clash)))))
     = Inl TypeError"
  by (simp add: example_experiment_started_def example_experiment_def example_started_trial_def
      example_experiment_clash_def example_polling_trial_init_def Trial_init_def
      example_polling_trial_eq example_polling_stage_def run_simps handle_exceptions_def
      bypass_def fill_pass_def fill_try_def ship_results_def call_new_trial_def
      bind_new_trial_def shares_key_def example_keywords new_trial_def
      reset_error_sequence_def)

text \<open>
  C9, amended. In a pass of the first loop whose \<^verbatim>\<open>trial.run()\<close> raises \<^verbatim>\<open>TrialAbort\<close>,
  the results that the slot has accumulated are shipped. When the call of \<^verbatim>\<open>new_trial\<close>
  that follows raises nothing, the pass raises nothing and the loop goes on to the next
  slot; the slot is not marked done: the last pending argument set has been popped and the
  slot started afresh on it by \<^verbatim>\<open>new_trial\<close>, which leaves it not done at stage 0, its
  unfinished stages dropped.
\<close>

theorem fill_pass_trial_abort:
  assumes "trial_index < length (trial_instances e)"
    and "run r (trial_instances e ! trial_index) = (trial1, Inl TrialAbort)"
    and "fill_pass r trial_index e = ((e', i'), out, made)"
  shows "shipped e' = shipped e @ [results trial1]
     \<and> (trial_index < length (per_instance_config e) \<longrightarrow>
        trial_arg_configs e \<noteq> [] \<longrightarrow>
        fst (snd (call_new_trial (base_trial_config e) (per_instance_config e ! trial_index)
                    (trial_arg_configs e) trial1)) = Inr () \<longrightarrow>
          out = Inr ()
        \<and> i' = (trial_index + 1) mod length (trial_instances e)
        \<and> made = [(trial_index, last (trial_arg_configs e))]
        \<and> trial_arg_configs e' = butlast (trial_arg_configs e)
        \<and> (\<exists>args kwargs.
              bind_new_trial (base_trial_config e) (per_instance_config e ! trial_index)
                (last (trial_arg_configs e)) = Inr (args, kwargs)
            \<and> trial_instances e' ! trial_index = fst (new_trial args kwargs trial1))
        \<and> \<not> is_done (trial_instances e' ! trial_index)
        \<and> stage_index (trial_instances e' ! trial_index) = 0)"
proof -
  note ft = fill_try_trial_abort [OF assms(2)]
  have ship: "shipped e' = shipped e @ [results trial1]"
    using assms(1,3) ft
    by (auto simp: fill_pass_def Let_def ship_results_def split: if_splits prod.splits)
  have rest: "out = Inr ()
        \<and> i' = (trial_index + 1) mod length (trial_instances e)
        \<and> made = [(trial_index, last (trial_arg_configs e))]
        \<and> trial_arg_configs e' = butlast (trial_arg_configs e)
        \<and> (\<exists>args kwargs.
              bind_new_trial (base_trial_config e) (per_instance_config e ! trial_index)
                (last (trial_arg_configs e)) = Inr (args, kwargs)
            \<and> trial_instances e' ! trial_index = fst (new_trial args kwargs trial1))
        \<and> \<not> is_done (trial_instances e' ! trial_index)
        \<and> stage_index (trial_instances e' ! trial_index) = 0"
    if cfg: "trial_index < length (per_instance_config e)"
      and ne: "trial_arg_configs e \<noteq> []"
      and ok: "fst (snd (call_new_trial (base_trial_config e) (per_instance_config e ! trial_index)
                    (trial_arg_configs e) trial1)) = Inr ()"
  proof -
    obtain pending1 trial2 passed where c:
      "call_new_trial (base_trial_config e) (per_instance_config e ! trial_index)
         (trial_arg_configs e) trial1 = ((pending1, trial2), Inr (), passed)"
      using ok
      by (cases "call_new_trial (base_trial_config e) (per_instance_config e ! trial_index)
         (trial_arg_configs e) trial1") auto
    from call_new_trial_returns [OF c] obtain args kwargs where r:
      "pending1 = butlast (trial_arg_configs e)" "passed = [last (trial_arg_configs e)]"
      "bind_new_trial (base_trial_config e) (per_instance_config e ! trial_index)
         (last (trial_arg_configs e)) = Inr (args, kwargs)"
      "trial2 = fst (new_trial args kwargs trial1)"
      "snd (new_trial args kwargs trial1) = Inr ()"
      by blast
    note nt = new_trial_succeeds [OF r(5)]
    have "fill_pass r trial_index e =
      ((e\<lparr>trial_instances := (trial_instances e)[trial_index := trial2],
           shipped := shipped e @ [results trial1],
           trial_arg_configs := pending1\<rparr>,
        (trial_index + 1) mod length (trial_instances e)),
       Inr (), map (Pair trial_index) passed)"
      using assms(1) cfg ne ft c
      by (simp add: fill_pass_def Let_def ship_results_def)
    then have "out = Inr ()" "i' = (trial_index + 1) mod length (trial_instances e)"
      "made = [(trial_index, last (trial_arg_configs e))]"
      "trial_arg_configs e' = butlast (trial_arg_configs e)"
      "trial_instances e' ! trial_index = trial2"
      using assms(3) assms(1) r(1,2) by auto
    then show ?thesis
      using r(3,4) nt by (auto simp: is_done_def)
  qed
  from ship rest show ?thesis by blast
qed

lemma fill_pass_queue:
  assumes "fill_pass r i e = ((e1, i1), out, made)"
  shows "suffix (rev (map snd made)) (trial_arg_configs e)
     \<and> (out \<noteq> Inl TypeError \<longrightarrow> trial_arg_configs e = trial_arg_configs e1 @ rev (map snd made))"
proof (cases "i < length (trial_instances e)")
  case False
  then show ?thesis using assms by (auto simp: fill_pass_def)
next
  case True
  obtain trial1 res where ft: "fill_try r (trial_instances e ! i) = (trial1, res)"
    by (cases "fill_try r (trial_instances e ! i)")
  show ?thesis
  proof (cases res)
    case (Inl ex)
    then show ?thesis using assms True ft by (auto simp: fill_pass_def)
  next
    case (Inr sr)
    obtain status x where sr: "sr = (status, x)" by (cases sr)
    let ?e2 = "case x of None \<Rightarrow> e\<lparr>trial_instances := (trial_instances e)[i := trial1]\<rparr>
      | Some y \<Rightarrow> ship_results y (e\<lparr>trial_instances := (trial_instances e)[i := trial1]\<rparr>)"
    have q2: "trial_arg_configs ?e2 = trial_arg_configs e"
      and b2: "base_trial_config ?e2 = base_trial_config e"
      and p2: "per_instance_config ?e2 = per_instance_config e"
      by (simp_all add: ship_results_def split: option.splits)
    show ?thesis
    proof (cases "status \<noteq> 0 \<and> i < length (per_instance_config e) \<and> trial_arg_configs e \<noteq> []")
      case False
      then show ?thesis
        using assms True ft Inr sr
        by (auto simp: fill_pass_def Let_def ship_results_def split: if_splits option.splits)
    next
      case call: True
      obtain pending1 trial2 out2 passed where c:
        "call_new_trial (base_trial_config e) (per_instance_config e ! i)
           (trial_arg_configs e) trial1 = ((pending1, trial2), out2, passed)"
        by (metis prod.exhaust)
      have "fill_pass r i e =
          ((?e2\<lparr>trial_arg_configs := pending1,
                trial_instances := (trial_instances ?e2)[i := trial2]\<rparr>,
            (case out2 of Inl ex \<Rightarrow> i | Inr u \<Rightarrow> Suc i mod length (trial_instances ?e2))),
           out2, map (Pair i) passed)"
        using True ft Inr sr call c q2 b2 p2
        by (simp add: fill_pass_def Let_def)
      then have "out = out2" "made = map (Pair i) passed" "trial_arg_configs e1 = pending1"
        using assms by auto
      then show ?thesis
        using call_new_trial_pending [OF c] by (simp add: comp_def)
    qed
  qed
qed

text \<open>
  C8, as the claim states it, fails: with the argument sets \<open>example_arg_first\<close> and
  \<open>example_arg_second\<close> pending in that order, the first call of \<^verbatim>\<open>new_trial\<close> gets the
  second one.
\<close>

theorem fill_phase_first_enqueued_counterexample:
  "trial_arg_configs example_experiment = [example_arg_first, example_arg_second]
   \<and> example_arg_first \<noteq> example_arg_second
   \<and> snd (fill_phase [Returns 0 Map.empty] 0 example_experiment) = [(0, example_arg_second)]"
proof -
  have "example_arg_first \<noteq> example_arg_second"
    by (simp add: example_arg_first_def example_arg_second_def)
  moreover have "snd (fill_phase [Returns 0 Map.empty] 0 example_experiment) =
      [(0, example_arg_second)]"
    by (simp add: example_experiment_def example_polling_trial_init_def Trial_init_def
        example_polling_stage_def run_simps fill_pass_def fill_try_def ship_results_def
        call_new_trial_def bind_new_trial_def shares_key_def example_keywords new_trial_def
        reset_error_sequence_def)
  ultimately show ?thesis
    by (simp add: example_experiment_def)
qed

text \<open>
  C8, amended. The first loop consumes the pending argument sets from the end of the list:
  the sets passed to \<^verbatim>\<open>new_trial\<close>, in the order of the calls, are the last entries of the
  initial list read backwards, so the last entry is passed first, and each entry is passed
  to one call at most: the entries passed are gone from the list that is left. (When a
  popped set is not passed on because its keywords clash, the loop ends with that
  \<^verbatim>\<open>TypeError\<close>.)
\<close>

theorem fill_phase_consumes_from_the_end:
  assumes "fill_phase rs i e = ((e', i', fin), made)"
  shows "suffix (rev (map snd made)) (trial_arg_configs e)
     \<and> (fin \<noteq> Raised TypeError \<longrightarrow>
          trial_arg_configs e = trial_arg_configs e' @ rev (map snd made))
     \<and> (made \<noteq> [] \<longrightarrow> snd (hd made) = last (trial_arg_configs e))"
proof -
  have main: "suffix (rev (map snd made)) (trial_arg_configs e)
     \<and> (fin \<noteq> Raised TypeError \<longrightarrow>
          trial_arg_configs e = trial_arg_configs e' @ rev (map snd made))"
    using assms
  proof (induction rs arbitrary: i e e' i' fin made)
    case Nil
    then show ?case by (auto split: if_splits)
  next
    case (Cons r rs)
    show ?case
    proof (cases "trial_arg_configs e = []")
      case True
      then show ?thesis using Cons.prems by auto
    next
      case False
      obtain e1 i1 out made1 where fp: "fill_pass r i e = ((e1, i1), out, made1)"
        by (metis prod.exhaust)
      note q = fill_pass_queue [OF fp]
      show ?thesis
      proof (cases out)
        case (Inl ex)
        then have "e' = e1" "fin = Raised ex" "made = made1"
          using Cons.prems False fp by auto
        then show ?thesis using q Inl by auto
      next
        case (Inr u)
        obtain end2 made2 where rec: "fill_phase rs i1 e1 = (end2, made2)"
          by (metis prod.exhaust)
        have made: "made = made1 @ made2" and end2: "end2 = (e', i', fin)"
          using Cons.prems False fp Inr rec by auto
        from Cons.IH [of i1 e1 e' i' fin made2] rec end2
        have ih: "suffix (rev (map snd made2)) (trial_arg_configs e1)"
          "fin \<noteq> Raised TypeError \<longrightarrow>
             trial_arg_configs e1 = trial_arg_configs e' @ rev (map snd made2)"
          by auto
        have q1: "trial_arg_configs e = trial_arg_configs e1 @ rev (map snd made1)"
          using q Inr by auto
        from ih(1) obtain zs where zs: "trial_arg_configs e1 = zs @ rev (map snd made2)"
          by (auto simp: suffix_def)
        have "trial_arg_configs e = zs @ rev (map snd made)"
          using q1 zs made by simp
        then have "suffix (rev (map snd made)) (trial_arg_configs e)"
          by (metis suffixI)
        moreover have "fin \<noteq> Raised TypeError \<longrightarrow>
            trial_arg_configs e = trial_arg_configs e' @ rev (map snd made)"
          using ih(2) q1 made by auto
        ultimately show ?thesis by blast
      qed
    qed
  qed
  have "snd (hd made) = last (trial_arg_configs e)" if ne: "made \<noteq> []"
  proof -
    obtain c cs where m: "made = c # cs"
      using ne by (cases made) auto
    from main obtain zs where "trial_arg_configs e = zs @ rev (map snd made)"
      by (auto simp: suffix_def)
    then show ?thesis using m by simp
  qed
  with main show ?thesis by blast
qed

lemma example_started_trial_eq:
  "example_started_trial =
     \<lparr> error_sequence = [], original_error_sequence = [],
       state = [''trial_results'' \<mapsto> 9], initial_state = Map.empty,
       state_checkpoint = Map.empty,
       stage_index = 0, stages = [example_polling_stage],
       running = True,
       initial_results = \<lparr>data = [], metadata = Map.empty\<rparr>,
       results = \<lparr>data = [9], metadata = Map.empty\<rparr>,
       trial_done = False, multiple_results = False, errors = 0, fails = 0,
       stage_args = Some [Map.empty] \<rparr>"
  by (simp add: example_started_trial_def example_polling_trial_eq run_simps
      example_polling_stage_def)

lemma example_started_trial_abort:
  "run (Raises TrialAbort) example_started_trial = (example_started_trial, Inl TrialAbort)"
  by (simp add: example_started_trial_eq run_simps example_polling_stage_def
      handle_exceptions_def bypass_def)

theorem fill_pass_trial_abort_witness:
  "0 < length (trial_instances example_experiment_started)
   \<and> run (Raises TrialAbort) (trial_instances example_experiment_started ! 0) =
       (example_started_trial, Inl TrialAbort)
   \<and> 0 < length (per_instance_config example_experiment_started)
   \<and> trial_arg_configs example_experiment_started \<noteq> []
   \<and> fst (snd (call_new_trial (base_trial_config example_experiment_started)
        (per_instance_config example_experiment_started ! 0)
        (trial_arg_configs example_experiment_started) example_started_trial)) = Inr ()
   \<and> snd (fill_pass (Raises TrialAbort) 0 example_experiment_started) =
       (Inr (), [(0, example_arg_second)])
   \<and> map data (shipped (fst (fst (fill_pass (Raises TrialAbort) 0 example_experiment_started))))
       = [[9]]
   \<and> trial_arg_configs (fst (fst (fill_pass (Raises TrialAbort) 0 example_experiment_started)))
       = [example_arg_first]
   \<and> \<not> is_done
        (trial_instances
          (fst (fst (fill_pass (Raises TrialAbort) 0 example_experiment_started))) ! 0)
   \<and> stage_index
        (trial_instances
          (fst (fst (fill_pass (Raises TrialAbort) 0 example_experiment_started))) ! 0) = 0"
proof -
  let ?e = example_experiment_started
  let ?X = "fill_pass (Raises TrialAbort) 0 ?e"
  have h1: "0 < length (trial_instances ?e)"
    and h3: "0 < length (per_instance_config ?e)"
    and h4: "trial_arg_configs ?e \<noteq> []"
    and last: "last (trial_arg_configs ?e) = example_arg_second"
    and bl: "butlast (trial_arg_configs ?e) = [example_arg_first]"
    and sh: "shipped ?e = []"
    by (simp_all add: example_experiment_started_def example_experiment_def)
  have h2: "run (Raises TrialAbort) (trial_instances ?e ! 0) =
      (example_started_trial, Inl TrialAbort)"
    using example_started_trial_abort
    by (simp add: example_experiment_started_def example_experiment_def)
  have h5: "fst (snd (call_new_trial (base_trial_config ?e) (per_instance_config ?e ! 0)
      (trial_arg_configs ?e) example_started_trial)) = Inr ()"
    by (simp add: example_experiment_started_def example_experiment_def call_new_trial_def
        bind_new_trial_def shares_key_def example_keywords new_trial_def
        example_started_trial_eq)
  have h6: "?X = ((fst (fst ?X), snd (fst ?X)), fst (snd ?X), snd (snd ?X))"
    by simp
  have res: "data (results example_started_trial) = [9]"
    by (simp add: example_started_trial_eq)
  from fill_pass_trial_abort [OF h1 h2 h6] h3 h4 h5
  have "fst (snd ?X) = Inr ()"
    and "shipped (fst (fst ?X)) = shipped ?e @ [results example_started_trial]"
    and "snd (snd ?X) = [(0, last (trial_arg_configs ?e))]"
    and "trial_arg_configs (fst (fst ?X)) = butlast (trial_arg_configs ?e)"
    and "\<not> is_done (trial_instances (fst (fst ?X)) ! 0)"
    and "stage_index (trial_instances (fst (fst ?X)) ! 0) = 0"
    by blast+
  then have "snd ?X = (Inr (), [(0, example_arg_second)])"
    and "map data (shipped (fst (fst ?X))) = [[9]]"
    and "trial_arg_configs (fst (fst ?X)) = [example_arg_first]"
    and "\<not> is_done (trial_instances (fst (fst ?X)) ! 0)"
    and "stage_index (trial_instances (fst (fst ?X)) ! 0) = 0"
    using last bl sh res by (simp_all add: prod_eq_iff)
  then show ?thesis
    using h1 h2 h3 h4 h5 by blast
qed

text \<open>
  The second loop differs: there \<^verbatim>\<open>TrialAbort\<close> marks the trial done, with the same status
  and results; no argument set is left to start it on.
\<close>

lemma drain_try_trial_abort_marks_done:
  assumes "run r trial = (trial1, Inl TrialAbort)"
  shows "drain_try r trial = (set_done trial1, Inr (1, Some (results trial1)))"
    and "is_done (fst (drain_try r trial))"
  using assms by (simp_all add: drain_try_def set_done_def is_done_def)

lemma example_fill_phase:
  "fill_phase [Returns 0 Map.empty, Returns 1 Map.empty, Returns 1 Map.empty] 0
     example_experiment =
   ((fst (fst (fill_phase [Returns 0 Map.empty, Returns 1 Map.empty, Returns 1 Map.empty] 0
       example_experiment)), 0, Exited),
    [(0, example_arg_second), (0, example_arg_first)])"
  by (simp add: example_experiment_def example_polling_trial_init_def Trial_init_def
      example_polling_stage_def run_simps fill_pass_def fill_try_def ship_results_def
      call_new_trial_def bind_new_trial_def shares_key_def example_keywords new_trial_def
      reset_error_sequence_def prod_eq_iff)

theorem fill_phase_consumes_from_the_end_witness:
  "suffix (rev (map snd [(0::nat, example_arg_second), (0, example_arg_first)]))
     (trial_arg_configs example_experiment)
   \<and> Exited \<noteq> Raised TypeError
   \<and> trial_arg_configs example_experiment =
       trial_arg_configs
         (fst (fst (fill_phase [Returns 0 Map.empty, Returns 1 Map.empty, Returns 1 Map.empty] 0
           example_experiment)))
       @ rev (map snd [(0::nat, example_arg_second), (0, example_arg_first)])
   \<and> [(0::nat, example_arg_second), (0, example_arg_first)] \<noteq> []
   \<and> snd (hd [(0::nat, example_arg_second), (0, example_arg_first)]) =
       last (trial_arg_configs example_experiment)"
  using fill_phase_consumes_from_the_end [OF example_fill_phase]
  by simp

end
